theory Spec2Isabelle
  imports Main "HOL-Library.Word"
begin

section \<open>SocialReputationFHE: the contract as a state-passing model\<close>

text \<open>
  The development embeds \<^verbatim>\<open>contracts/SocialReputationFHE.sol\<close>. Contract storage is
  a record, every public function is a HOL function from the storage (and the transaction
  environment: \<^verbatim>\<open>msg.sender\<close>, \<^verbatim>\<open>block.timestamp\<close>) to either an error (the call
  reverted, storage is the caller's old one) or the result. Solidity mappings are total:
  a key that was never written reads as the all-zero value, so a mapping is a HOL function.
  Event emission writes no storage and returns nothing, and is left out.
\<close>

subsection \<open>Machine types\<close>

type_synonym address = "160 word"
type_synonym uint256 = "256 word"
type_synonym uint32 = "32 word"
type_synonym byte = "8 word"

subsection \<open>Reverts\<close>

text \<open>
  A call that reverts returns one of these. The contract reverts with message strings;
  the constructors carry the names the specification gives them, with the strings beside.
\<close>

datatype error =
    Unauthorized          \<comment> \<open>\<^verbatim>\<open>"Not admin"\<close>, \<^verbatim>\<open>"Not trusted issuer"\<close>, \<^verbatim>\<open>"Not issuer"\<close>\<close>
  | NotFound              \<comment> \<open>named by the specification; no \<^verbatim>\<open>require\<close> of the contract raises it\<close>
  | ProfileUninitialized  \<comment> \<open>\<^verbatim>\<open>"Profile not initialized"\<close>\<close>
  | InvalidProof          \<comment> \<open>\<^verbatim>\<open>"Invalid proof"\<close>\<close>
  | AlreadyRevealed       \<comment> \<open>\<^verbatim>\<open>"Already decrypted"\<close>\<close>
  | UnknownRequest        \<comment> \<open>\<^verbatim>\<open>"Invalid request"\<close>\<close>
  | ArithmeticPanic       \<comment> \<open>checked \<^verbatim>\<open>uint256\<close> arithmetic of Solidity 0.8 overflowed\<close>
  | DivisionByZero        \<comment> \<open>encrypted division by a zero divisor\<close>
  | InvalidSignature      \<comment> \<open>\<^verbatim>\<open>FHE.checkSignatures\<close> rejected the attestation\<close>
  | DecodeFailure         \<comment> \<open>\<^verbatim>\<open>abi.decode\<close> rejected the cleartexts\<close>

subsection \<open>The encrypted-arithmetic engine\<close>

text \<open>
  Modelled from the spec: the library \<^verbatim>\<open>@fhevm/solidity/lib/FHE.sol\<close> is imported by
  the contract and is not part of the sources. The spec fixes its interface: ciphertexts
  support add, sub, mul, div (truncating), comparison and select without decryption. A
  ciphertext of type \<^verbatim>\<open>euint32\<close> is modelled by the 32-bit value it encrypts, so
  addition, subtraction and multiplication wrap modulo \<open>2 ^ 32\<close>. The spec leaves a zero
  divisor to the caller; the model makes it a failure, so that no result below depends on
  the value of a division by zero.
\<close>

type_synonym euint32 = "32 word"
type_synonym ebool = bool

text \<open>Modelled from the spec: \<^verbatim>\<open>FHE.asEuint32\<close>, the encryption of a plaintext (\<open>encrypt\<close>).\<close>

definition FHE_asEuint32 :: "uint32 \<Rightarrow> euint32" where
  "FHE_asEuint32 x = x"

text \<open>Modelled from the spec: \<^verbatim>\<open>FHE.add\<close>, the sum of two ciphertexts.\<close>

definition FHE_add :: "euint32 \<Rightarrow> euint32 \<Rightarrow> euint32" where
  "FHE_add a b = a + b"

text \<open>Modelled from the spec: \<^verbatim>\<open>FHE.sub\<close>, the difference of two ciphertexts.\<close>

definition FHE_sub :: "euint32 \<Rightarrow> euint32 \<Rightarrow> euint32" where
  "FHE_sub a b = a - b"

text \<open>Modelled from the spec: \<^verbatim>\<open>FHE.mul\<close>, the product of two ciphertexts.\<close>

definition FHE_mul :: "euint32 \<Rightarrow> euint32 \<Rightarrow> euint32" where
  "FHE_mul a b = a * b"

text \<open>
  Modelled from the spec: \<^verbatim>\<open>FHE.div\<close>, the truncating quotient of two ciphertexts; a
  zero divisor, which the spec leaves to the caller to avoid, is a failure here.
\<close>

definition FHE_div :: "euint32 \<Rightarrow> euint32 \<Rightarrow> error + euint32" where
  "FHE_div a b = (if b = 0 then Inl DivisionByZero else Inr (a div b))"

text \<open>Modelled from the spec: \<^verbatim>\<open>FHE.max\<close>, the larger of two ciphertexts.\<close>

definition FHE_max :: "euint32 \<Rightarrow> euint32 \<Rightarrow> euint32" where
  "FHE_max a b = (if a \<le> b then b else a)"

text \<open>Modelled from the spec: \<^verbatim>\<open>FHE.gte\<close>, the comparison (\<open>compare\<close>) of two ciphertexts.\<close>

definition FHE_gte :: "euint32 \<Rightarrow> euint32 \<Rightarrow> ebool" where
  "FHE_gte a b = (b \<le> a)"

text \<open>Modelled from the spec: \<^verbatim>\<open>FHE.and\<close>, the conjunction of two encrypted booleans.\<close>

definition FHE_and :: "ebool \<Rightarrow> ebool \<Rightarrow> ebool" where
  "FHE_and a b = (a \<and> b)"

text \<open>
  Modelled from the spec: \<^verbatim>\<open>FHE.cmux\<close>, the \<open>select\<close> of the specification: the
  second argument where the encrypted condition holds, the third otherwise.
\<close>

definition FHE_cmux :: "ebool \<Rightarrow> euint32 \<Rightarrow> euint32 \<Rightarrow> euint32" where
  "FHE_cmux c a b = (if c then a else b)"

subsection \<open>Structs and storage\<close>

record EncryptedVC =
  vcId :: uint256
  issuer :: address
  subject :: address
  encryptedType :: euint32
  encryptedScore :: euint32
  encryptedWeight :: euint32
  timestamp :: uint256
  isActive :: bool

record ReputationProfile =
  encryptedTotalScore :: euint32
  encryptedTrustLevel :: euint32
  encryptedCredentialCount :: euint32
  isInitialized :: bool

record ReputationProof =
  encryptedMinScore :: euint32
  encryptedProof :: euint32
  isValid :: bool

record DecryptedProof =
  minScore :: uint32
  proofValue :: uint32
  isRevealed :: bool

record contract =
  vcCount :: uint256
  verifiableCredentials :: "uint256 \<Rightarrow> EncryptedVC"
  reputationProfiles :: "address \<Rightarrow> ReputationProfile"
  reputationProofs :: "uint256 \<Rightarrow> ReputationProof"
  decryptedProofs :: "uint256 \<Rightarrow> DecryptedProof"
  userCredentials :: "address \<Rightarrow> uint256 list"
  trustedIssuers :: "address \<Rightarrow> bool"
  requestToProofId :: "uint256 \<Rightarrow> uint256"
  systemAdmin :: address

text \<open>The value every slot of a mapping holds before it is written.\<close>

definition zeroVC :: EncryptedVC where
  "zeroVC = \<lparr>vcId = 0, issuer = 0, subject = 0, encryptedType = 0, encryptedScore = 0,
     encryptedWeight = 0, timestamp = 0, isActive = False\<rparr>"

definition zeroProfile :: ReputationProfile where
  "zeroProfile = \<lparr>encryptedTotalScore = 0, encryptedTrustLevel = 0,
     encryptedCredentialCount = 0, isInitialized = False\<rparr>"

definition zeroProof :: ReputationProof where
  "zeroProof = \<lparr>encryptedMinScore = 0, encryptedProof = 0, isValid = False\<rparr>"

definition zeroDecrypted :: DecryptedProof where
  "zeroDecrypted = \<lparr>minScore = 0, proofValue = 0, isRevealed = False\<rparr>"

text \<open>The constructor: the deployer becomes the administrator, all else is zero.\<close>

definition constructor :: "address \<Rightarrow> contract" where
  "constructor sender = \<lparr>vcCount = 0,
     verifiableCredentials = (\<lambda>_. zeroVC),
     reputationProfiles = (\<lambda>_. zeroProfile),
     reputationProofs = (\<lambda>_. zeroProof),
     decryptedProofs = (\<lambda>_. zeroDecrypted),
     userCredentials = (\<lambda>_. []),
     trustedIssuers = (\<lambda>_. False),
     requestToProofId = (\<lambda>_. 0),
     systemAdmin = sender\<rparr>"

subsection \<open>Issuing and revoking credentials\<close>

definition authorizeIssuer :: "address \<Rightarrow> address \<Rightarrow> contract \<Rightarrow> error + contract" where
  "authorizeIssuer sender iss s =
     (if sender \<noteq> systemAdmin s then Inl Unauthorized
      else Inr (s\<lparr>trustedIssuers := (trustedIssuers s)(iss := True)\<rparr>))"

text \<open>
  \<^verbatim>\<open>vcCount += 1\<close> is checked arithmetic: it reverts when the counter holds the largest
  \<^verbatim>\<open>uint256\<close>.
\<close>

definition issueEncryptedVC ::
  "address \<Rightarrow> uint256 \<Rightarrow> address \<Rightarrow> euint32 \<Rightarrow> euint32 \<Rightarrow> euint32 \<Rightarrow> contract \<Rightarrow> error + contract" where
  "issueEncryptedVC sender now subj ty score weight s =
     (if \<not> trustedIssuers s sender then Inl Unauthorized
      else if vcCount s = - 1 then Inl ArithmeticPanic
      else
        let newId = vcCount s + 1;
            vc = \<lparr>vcId = newId, issuer = sender, subject = subj, encryptedType = ty,
                  encryptedScore = score, encryptedWeight = weight, timestamp = now,
                  isActive = True\<rparr>;
            profiles =
              (if \<not> isInitialized (reputationProfiles s subj)
               then (reputationProfiles s)(subj :=
                      \<lparr>encryptedTotalScore = FHE_asEuint32 0,
                       encryptedTrustLevel = FHE_asEuint32 0,
                       encryptedCredentialCount = FHE_asEuint32 0,
                       isInitialized = True\<rparr>)
               else reputationProfiles s)
        in Inr (s\<lparr>vcCount := newId,
                 verifiableCredentials := (verifiableCredentials s)(newId := vc),
                 userCredentials := (userCredentials s)(subj := userCredentials s subj @ [newId]),
                 reputationProfiles := profiles\<rparr>))"

text \<open>
  The typed issuing functions call \<^verbatim>\<open>issueEncryptedVC\<close> internally, so its
  \<^verbatim>\<open>onlyIssuer\<close> modifier runs with the same \<^verbatim>\<open>msg.sender\<close>.
\<close>

definition issueAnonymousAttestation ::
  "address \<Rightarrow> uint256 \<Rightarrow> address \<Rightarrow> euint32 \<Rightarrow> contract \<Rightarrow> error + contract" where
  "issueAnonymousAttestation sender now subj score s =
     (if \<not> trustedIssuers s sender then Inl Unauthorized
      else issueEncryptedVC sender now subj (FHE_asEuint32 0) score (FHE_asEuint32 1) s)"

definition issueCrossPlatformCredential ::
  "address \<Rightarrow> uint256 \<Rightarrow> address \<Rightarrow> euint32 \<Rightarrow> contract \<Rightarrow> error + contract" where
  "issueCrossPlatformCredential sender now subj score s =
     (if \<not> trustedIssuers s sender then Inl Unauthorized
      else issueEncryptedVC sender now subj (FHE_asEuint32 999) score (FHE_asEuint32 2) s)"

definition issueCommunityEndorsement ::
  "address \<Rightarrow> uint256 \<Rightarrow> address \<Rightarrow> euint32 \<Rightarrow> contract \<Rightarrow> error + contract" where
  "issueCommunityEndorsement sender now subj score s =
     issueEncryptedVC sender now subj (FHE_asEuint32 100) score (FHE_asEuint32 3) s"

definition issueSkillCertification ::
  "address \<Rightarrow> uint256 \<Rightarrow> address \<Rightarrow> euint32 \<Rightarrow> contract \<Rightarrow> error + contract" where
  "issueSkillCertification sender now subj score s =
     (if \<not> trustedIssuers s sender then Inl Unauthorized
      else issueEncryptedVC sender now subj (FHE_asEuint32 200) score (FHE_asEuint32 2) s)"

definition issueDIDScore ::
  "address \<Rightarrow> uint256 \<Rightarrow> address \<Rightarrow> euint32 \<Rightarrow> contract \<Rightarrow> error + contract" where
  "issueDIDScore sender now subj score s =
     (if \<not> trustedIssuers s sender then Inl Unauthorized
      else issueEncryptedVC sender now subj (FHE_asEuint32 400) score (FHE_asEuint32 3) s)"

definition revokeCredential :: "address \<Rightarrow> uint256 \<Rightarrow> contract \<Rightarrow> error + contract" where
  "revokeCredential sender vid s =
     (let vc = verifiableCredentials s vid
      in if issuer vc \<noteq> sender then Inl Unauthorized
         else Inr (s\<lparr>verifiableCredentials :=
                      (verifiableCredentials s)(vid := vc\<lparr>isActive := False\<rparr>)\<rparr>))"

definition protectUserPrivacy :: "address \<Rightarrow> address \<Rightarrow> contract \<Rightarrow> error + contract" where
  "protectUserPrivacy sender subj s =
     (if sender \<noteq> systemAdmin s then Inl Unauthorized else Inr s)"

text \<open>The view \<^verbatim>\<open>getEncryptedVC\<close> has no \<^verbatim>\<open>require\<close>: it returns the slot as it is.\<close>

definition getEncryptedVC ::
  "uint256 \<Rightarrow> contract \<Rightarrow>
     error + (address \<times> address \<times> euint32 \<times> euint32 \<times> euint32 \<times> uint256 \<times> bool)" where
  "getEncryptedVC vid s =
     (let vc = verifiableCredentials s vid
      in Inr (issuer vc, subject vc, encryptedType vc, encryptedScore vc,
              encryptedWeight vc, timestamp vc, isActive vc))"

subsection \<open>Recomputing a profile\<close>

text \<open>
  The body of the \<^verbatim>\<open>for\<close> loop of \<^verbatim>\<open>updateReputationProfile\<close>, on the accumulators
  \<open>(totalScore, totalWeight, credentialCount)\<close>, and the loop over the copied id array.
\<close>

definition updateStep ::
  "(uint256 \<Rightarrow> EncryptedVC) \<Rightarrow> euint32 \<times> euint32 \<times> euint32 \<Rightarrow> uint256
     \<Rightarrow> euint32 \<times> euint32 \<times> euint32" where
  "updateStep vcs acc i =
     (case acc of (totalScore, totalWeight, credentialCount) \<Rightarrow>
        let vc = vcs i
        in if isActive vc
           then (FHE_add totalScore (FHE_mul (encryptedScore vc) (encryptedWeight vc)),
                 FHE_add totalWeight (encryptedWeight vc),
                 FHE_add credentialCount (FHE_asEuint32 1))
           else (totalScore, totalWeight, credentialCount))"

fun updateLoop ::
  "(uint256 \<Rightarrow> EncryptedVC) \<Rightarrow> uint256 list \<Rightarrow> euint32 \<times> euint32 \<times> euint32
     \<Rightarrow> euint32 \<times> euint32 \<times> euint32" where
  "updateLoop vcs [] acc = acc"
| "updateLoop vcs (i # credentials) acc = updateLoop vcs credentials (updateStep vcs acc i)"

definition calculateTrustLevel :: "ReputationProfile \<Rightarrow> error + euint32" where
  "calculateTrustLevel profile =
     (case FHE_div (encryptedTotalScore profile) (FHE_asEuint32 10) of
        Inl e \<Rightarrow> Inl e
      | Inr scoreFactor \<Rightarrow>
          (case FHE_div (encryptedCredentialCount profile) (FHE_asEuint32 5) of
             Inl e \<Rightarrow> Inl e
           | Inr countFactor \<Rightarrow> Inr (FHE_add scoreFactor countFactor)))"

definition updateReputationProfile :: "address \<Rightarrow> contract \<Rightarrow> error + contract" where
  "updateReputationProfile subj s =
     (let profile = reputationProfiles s subj
      in if \<not> isInitialized profile then Inl ProfileUninitialized
         else
           case updateLoop (verifiableCredentials s) (userCredentials s subj)
                  (FHE_asEuint32 0, FHE_asEuint32 0, FHE_asEuint32 0) of
             (totalScore, totalWeight, credentialCount) \<Rightarrow>
               (case FHE_div totalScore (FHE_max totalWeight (FHE_asEuint32 1)) of
                  Inl e \<Rightarrow> Inl e
                | Inr avg \<Rightarrow>
                    let profile1 = profile\<lparr>encryptedTotalScore := avg,
                                           encryptedCredentialCount := credentialCount\<rparr>
                    in (case calculateTrustLevel profile1 of
                          Inl e \<Rightarrow> Inl e
                        | Inr trust \<Rightarrow>
                            Inr (s\<lparr>reputationProfiles := (reputationProfiles s)
                                     (subj := profile1\<lparr>encryptedTrustLevel := trust\<rparr>)\<rparr>))))"

subsection \<open>Derived metric: consistency\<close>

definition consistencyStep ::
  "(uint256 \<Rightarrow> EncryptedVC) \<Rightarrow> euint32 \<Rightarrow> euint32 \<Rightarrow> uint256 \<Rightarrow> euint32" where
  "consistencyStep vcs avgScore totalDeviation i =
     (let deviation = FHE_sub (encryptedScore (vcs i)) avgScore
      in FHE_add totalDeviation (FHE_mul deviation deviation))"

fun consistencyLoop ::
  "(uint256 \<Rightarrow> EncryptedVC) \<Rightarrow> euint32 \<Rightarrow> uint256 list \<Rightarrow> euint32 \<Rightarrow> euint32" where
  "consistencyLoop vcs avgScore [] totalDeviation = totalDeviation"
| "consistencyLoop vcs avgScore (i # credentials) totalDeviation =
     consistencyLoop vcs avgScore credentials (consistencyStep vcs avgScore totalDeviation i)"

definition calculateConsistency :: "address \<Rightarrow> contract \<Rightarrow> error + euint32" where
  "calculateConsistency subj s =
     (let credentials = userCredentials s subj
      in if length credentials < 2 then Inr (FHE_asEuint32 100)
         else
           let avgScore = encryptedTotalScore (reputationProfiles s subj);
               totalDeviation = consistencyLoop (verifiableCredentials s) avgScore credentials
                                  (FHE_asEuint32 0)
           in (case FHE_div totalDeviation (FHE_asEuint32 (of_nat (length credentials))) of
                 Inl e \<Rightarrow> Inl e
               | Inr variance \<Rightarrow>
                   (case FHE_div variance (FHE_asEuint32 10) of
                      Inl e \<Rightarrow> Inl e
                    | Inr d \<Rightarrow> Inr (FHE_sub (FHE_asEuint32 100) d))))"

subsection \<open>Proofs and their reveal\<close>

definition generateReputationProof ::
  "address \<Rightarrow> euint32 \<Rightarrow> contract \<Rightarrow> error + (uint256 \<times> contract)" where
  "generateReputationProof subj encMinScore s =
     (let profile = reputationProfiles s subj
      in if \<not> isInitialized profile then Inl ProfileUninitialized
         else if vcCount s = - 1 then Inl ArithmeticPanic
         else
           let newProofId = vcCount s + 1;
               meetsRequirement = FHE_gte (encryptedTotalScore profile) encMinScore;
               pv = FHE_cmux meetsRequirement (encryptedTotalScore profile) (FHE_asEuint32 0)
           in Inr (newProofId,
                   s\<lparr>vcCount := newProofId,
                     reputationProofs := (reputationProofs s)(newProofId :=
                        \<lparr>encryptedMinScore = encMinScore, encryptedProof = pv, isValid = True\<rparr>),
                     decryptedProofs := (decryptedProofs s)(newProofId :=
                        \<lparr>minScore = 0, proofValue = 0, isRevealed = False\<rparr>)\<rparr>))"

definition generateTimeBoundProof ::
  "address \<Rightarrow> euint32 \<Rightarrow> uint256 \<Rightarrow> contract \<Rightarrow> error + (uint256 \<times> contract)" where
  "generateTimeBoundProof subj encMinScore validityPeriod s =
     (case generateReputationProof subj encMinScore s of
        Inl e \<Rightarrow> Inl e
      | Inr (proofId, s1) \<Rightarrow>
          Inr (proofId,
               s1\<lparr>reputationProofs := (reputationProofs s1)
                    (proofId := (reputationProofs s1 proofId)\<lparr>isValid := False\<rparr>)\<rparr>))"

definition compositeStep :: "euint32 \<Rightarrow> ebool \<times> euint32 \<Rightarrow> euint32 \<Rightarrow> ebool \<times> euint32" where
  "compositeStep score acc req =
     (case acc of (meetsAll, compositeProof) \<Rightarrow>
        let meetsRequirement = FHE_gte score req
        in (FHE_and meetsAll meetsRequirement,
            FHE_add compositeProof (FHE_cmux meetsRequirement req (FHE_asEuint32 0))))"

fun compositeLoop :: "euint32 \<Rightarrow> euint32 list \<Rightarrow> ebool \<times> euint32 \<Rightarrow> ebool \<times> euint32" where
  "compositeLoop score [] acc = acc"
| "compositeLoop score (req # reqs) acc = compositeLoop score reqs (compositeStep score acc req)"

definition generateCompositeProof ::
  "address \<Rightarrow> euint32 list \<Rightarrow> contract \<Rightarrow> error + (uint256 \<times> contract)" where
  "generateCompositeProof subj encryptedRequirements s =
     (let profile = reputationProfiles s subj
      in if \<not> isInitialized profile then Inl ProfileUninitialized
         else
           case compositeLoop (encryptedTotalScore profile) encryptedRequirements
                  (True, FHE_asEuint32 0) of
             (meetsAll, compositeProof) \<Rightarrow>
               if vcCount s = - 1 then Inl ArithmeticPanic
               else
                 let newProofId = vcCount s + 1
                 in Inr (newProofId,
                         s\<lparr>vcCount := newProofId,
                           reputationProofs := (reputationProofs s)(newProofId :=
                              \<lparr>encryptedMinScore =
                                 FHE_cmux meetsAll (FHE_asEuint32 1) (FHE_asEuint32 0),
                               encryptedProof = compositeProof, isValid = True\<rparr>),
                           decryptedProofs := (decryptedProofs s)(newProofId :=
                              \<lparr>minScore = 0, proofValue = 0, isRevealed = False\<rparr>)\<rparr>))"

text \<open>
  The two ciphertexts that \<^verbatim>\<open>requestProofDecryption\<close> hands to the decryption oracle.
  \<^verbatim>\<open>FHE.requestDecryption\<close> belongs to the external library; the request id it returns is
  taken as the argument \<open>reqId\<close>.
\<close>

definition submittedCiphertexts :: "ReputationProof \<Rightarrow> euint32 list" where
  "submittedCiphertexts rp = [encryptedMinScore rp, encryptedProof rp]"

definition requestProofDecryption :: "uint256 \<Rightarrow> uint256 \<Rightarrow> contract \<Rightarrow> error + contract" where
  "requestProofDecryption proofId reqId s =
     (if \<not> isValid (reputationProofs s proofId) then Inl InvalidProof
      else if isRevealed (decryptedProofs s proofId) then Inl AlreadyRevealed
      else Inr (s\<lparr>requestToProofId := (requestToProofId s)(reqId := proofId)\<rparr>))"

text \<open>
  \<^verbatim>\<open>abi.decode(cleartexts, (uint32, uint32))\<close>: two 32-byte big-endian words, each of
  which must fit 32 bits; shorter input, or a word with a higher bit set, reverts.
\<close>

definition be_nat :: "byte list \<Rightarrow> nat" where
  "be_nat bs = foldl (\<lambda>acc b. acc * 256 + unat b) 0 bs"

definition abi_decode_uint32 :: "byte list \<Rightarrow> nat \<Rightarrow> uint32 option" where
  "abi_decode_uint32 bs off =
     (let v = be_nat (take 32 (drop off bs))
      in if v < 2 ^ 32 then Some (of_nat v) else None)"

definition abi_decode_uint32_pair :: "byte list \<Rightarrow> (uint32 \<times> uint32) option" where
  "abi_decode_uint32_pair bs =
     (if length bs < 64 then None
      else case abi_decode_uint32 bs 0 of
             None \<Rightarrow> None
           | Some a \<Rightarrow> (case abi_decode_uint32 bs 32 of
                          None \<Rightarrow> None
                        | Some b \<Rightarrow> Some (a, b)))"

text \<open>
  The callback. \<^verbatim>\<open>FHE.checkSignatures\<close> is the oracle's attestation check, external to
  the contract: it is the parameter \<open>checkSignatures\<close>, and a rejected attestation reverts.
\<close>

definition decryptReputationProof ::
  "(uint256 \<Rightarrow> byte list \<Rightarrow> byte list \<Rightarrow> bool) \<Rightarrow> uint256 \<Rightarrow> byte list \<Rightarrow> byte list
     \<Rightarrow> contract \<Rightarrow> error + contract" where
  "decryptReputationProof checkSignatures requestId cleartexts attestation s =
     (let proofId = requestToProofId s requestId
      in if proofId = 0 then Inl UnknownRequest
         else if \<not> isValid (reputationProofs s proofId) then Inl InvalidProof
         else if isRevealed (decryptedProofs s proofId) then Inl AlreadyRevealed
         else if \<not> checkSignatures requestId cleartexts attestation then Inl InvalidSignature
         else case abi_decode_uint32_pair cleartexts of
                None \<Rightarrow> Inl DecodeFailure
              | Some (m, v) \<Rightarrow>
                  Inr (s\<lparr>decryptedProofs := (decryptedProofs s)(proofId :=
                          (decryptedProofs s proofId)\<lparr>minScore := m, proofValue := v,
                                                       isRevealed := True\<rparr>)\<rparr>))"

subsection \<open>Transactions and reachable storage\<close>

text \<open>
  Every state-changing public function of the contract, with the transaction environment
  it reads. The proof generators return an id besides the new storage; \<open>stored\<close> keeps the
  storage.
\<close>

datatype call =
    AuthorizeIssuer address address
  | IssueEncryptedVC address uint256 address euint32 euint32 euint32
  | IssueAnonymousAttestation address uint256 address euint32
  | IssueCrossPlatformCredential address uint256 address euint32
  | IssueCommunityEndorsement address uint256 address euint32
  | IssueSkillCertification address uint256 address euint32
  | IssueDIDScore address uint256 address euint32
  | RevokeCredential address uint256
  | ProtectUserPrivacy address address
  | UpdateReputationProfile address
  | GenerateReputationProof address euint32
  | GenerateTimeBoundProof address euint32 uint256
  | GenerateCompositeProof address "euint32 list"
  | RequestProofDecryption uint256 uint256
  | DecryptReputationProof uint256 "byte list" "byte list"

definition stored :: "error + (uint256 \<times> contract) \<Rightarrow> error + contract" where
  "stored r = (case r of Inl e \<Rightarrow> Inl e | Inr (_, s) \<Rightarrow> Inr s)"

fun exec :: "(uint256 \<Rightarrow> byte list \<Rightarrow> byte list \<Rightarrow> bool) \<Rightarrow> call \<Rightarrow> contract \<Rightarrow> error + contract" where
  "exec chk (AuthorizeIssuer sender iss) s = authorizeIssuer sender iss s"
| "exec chk (IssueEncryptedVC sender now subj ty score weight) s =
     issueEncryptedVC sender now subj ty score weight s"
| "exec chk (IssueAnonymousAttestation sender now subj score) s =
     issueAnonymousAttestation sender now subj score s"
| "exec chk (IssueCrossPlatformCredential sender now subj score) s =
     issueCrossPlatformCredential sender now subj score s"
| "exec chk (IssueCommunityEndorsement sender now subj score) s =
     issueCommunityEndorsement sender now subj score s"
| "exec chk (IssueSkillCertification sender now subj score) s =
     issueSkillCertification sender now subj score s"
| "exec chk (IssueDIDScore sender now subj score) s = issueDIDScore sender now subj score s"
| "exec chk (RevokeCredential sender vid) s = revokeCredential sender vid s"
| "exec chk (ProtectUserPrivacy sender subj) s = protectUserPrivacy sender subj s"
| "exec chk (UpdateReputationProfile subj) s = updateReputationProfile subj s"
| "exec chk (GenerateReputationProof subj t) s = stored (generateReputationProof subj t s)"
| "exec chk (GenerateTimeBoundProof subj t period) s =
     stored (generateTimeBoundProof subj t period s)"
| "exec chk (GenerateCompositeProof subj reqs) s = stored (generateCompositeProof subj reqs s)"
| "exec chk (RequestProofDecryption proofId reqId) s = requestProofDecryption proofId reqId s"
| "exec chk (DecryptReputationProof requestId cleartexts attestation) s =
     decryptReputationProof chk requestId cleartexts attestation s"

text \<open>A transaction that reverts leaves the storage as it was.\<close>

definition transact ::
  "(uint256 \<Rightarrow> byte list \<Rightarrow> byte list \<Rightarrow> bool) \<Rightarrow> contract \<Rightarrow> call \<Rightarrow> contract" where
  "transact chk s c = (case exec chk c s of Inl e \<Rightarrow> s | Inr s' \<Rightarrow> s')"

definition run ::
  "(uint256 \<Rightarrow> byte list \<Rightarrow> byte list \<Rightarrow> bool) \<Rightarrow> call list \<Rightarrow> contract \<Rightarrow> contract" where
  "run chk cs s = foldl (transact chk) s cs"

text \<open>Which calls issue a credential, revoke one, or recompute a profile.\<close>

fun issues :: "call \<Rightarrow> bool" where
  "issues (IssueEncryptedVC sender now subj ty score weight) = True"
| "issues (IssueAnonymousAttestation sender now subj score) = True"
| "issues (IssueCrossPlatformCredential sender now subj score) = True"
| "issues (IssueCommunityEndorsement sender now subj score) = True"
| "issues (IssueSkillCertification sender now subj score) = True"
| "issues (IssueDIDScore sender now subj score) = True"
| "issues c = False"

fun revokes :: "call \<Rightarrow> bool" where
  "revokes (RevokeCredential sender vid) = True"
| "revokes c = False"

fun recomputes :: "call \<Rightarrow> bool" where
  "recomputes (UpdateReputationProfile subj) = True"
| "recomputes c = False"

definition credentialChange :: "call \<Rightarrow> bool" where
  "credentialChange c = (issues c \<or> revokes c \<or> recomputes c)"

text \<open>
  The storage the contract can be in: the constructor's, and what a call that did not
  revert leaves. The set \<open>I\<close> is history, not storage: the ids that the issuing calls so
  far assigned to credentials.
\<close>

definition issuedBy :: "call \<Rightarrow> contract \<Rightarrow> uint256 set" where
  "issuedBy c s = (if issues c then {vcCount s + 1} else {})"

inductive reachable ::
  "(uint256 \<Rightarrow> byte list \<Rightarrow> byte list \<Rightarrow> bool) \<Rightarrow> uint256 set \<Rightarrow> contract \<Rightarrow> bool"
  for chk :: "uint256 \<Rightarrow> byte list \<Rightarrow> byte list \<Rightarrow> bool" where
  deployed: "reachable chk {} (constructor deployer)"
| called: "reachable chk I s \<Longrightarrow> exec chk c s = Inr s' \<Longrightarrow> reachable chk (I \<union> issuedBy c s) s'"

code_pred reachable .

subsection \<open>The aggregates the specification names\<close>

text \<open>
  The specification's words for a recomputed profile: the subject's active credentials,
  the sum of score times weight over a list of credentials, and the sum of their weights.
  The sums are sums of \<^verbatim>\<open>euint32\<close> values, modulo \<open>2 ^ 32\<close>; \<open>plainScoreSum\<close> and
  \<open>plainWeightSum\<close> are the same sums over the unbounded naturals.
\<close>

definition activeCredentials :: "contract \<Rightarrow> address \<Rightarrow> uint256 list" where
  "activeCredentials s subj =
     filter (\<lambda>i. isActive (verifiableCredentials s i)) (userCredentials s subj)"

definition weightedScoreSum :: "contract \<Rightarrow> uint256 list \<Rightarrow> euint32" where
  "weightedScoreSum s ids =
     sum_list (map (\<lambda>i. encryptedScore (verifiableCredentials s i)
                        * encryptedWeight (verifiableCredentials s i)) ids)"

definition weightSum :: "contract \<Rightarrow> uint256 list \<Rightarrow> euint32" where
  "weightSum s ids = sum_list (map (\<lambda>i. encryptedWeight (verifiableCredentials s i)) ids)"

definition plainScoreSum :: "contract \<Rightarrow> uint256 list \<Rightarrow> nat" where
  "plainScoreSum s ids =
     sum_list (map (\<lambda>i. unat (encryptedScore (verifiableCredentials s i))
                        * unat (encryptedWeight (verifiableCredentials s i))) ids)"

definition plainWeightSum :: "contract \<Rightarrow> uint256 list \<Rightarrow> nat" where
  "plainWeightSum s ids =
     sum_list (map (\<lambda>i. unat (encryptedWeight (verifiableCredentials s i))) ids)"

subsection \<open>A sample history\<close>

text \<open>
  The ids that the issuing calls of a history assign, computed along the run; an oracle
  check that accepts every attestation; and the storage after the example of the
  specification: the administrator \<open>1\<close> authorizes itself as issuer and issues to subject
  \<open>2\<close> a credential of score 80 and one of score 60, both of weight 1; then the profile of
  \<open>2\<close> is recomputed; then the second credential is revoked and the profile recomputed
  again. \<open>demoOne\<close> is the storage after the first credential alone.
\<close>

fun issuedIn ::
  "(uint256 \<Rightarrow> byte list \<Rightarrow> byte list \<Rightarrow> bool) \<Rightarrow> call list \<Rightarrow> contract \<Rightarrow> uint256 set" where
  "issuedIn chk [] s = {}"
| "issuedIn chk (c # cs) s =
     (case exec chk c s of
        Inl e \<Rightarrow> issuedIn chk cs s
      | Inr s' \<Rightarrow> issuedBy c s \<union> issuedIn chk cs s')"

definition acceptAll :: "uint256 \<Rightarrow> byte list \<Rightarrow> byte list \<Rightarrow> bool" where
  "acceptAll requestId cleartexts attestation = True"

definition demoCalls :: "call list" where
  "demoCalls =
     [AuthorizeIssuer 1 1, IssueEncryptedVC 1 1000 2 1 80 1, IssueEncryptedVC 1 1001 2 1 60 1]"

definition demoIssued :: contract where
  "demoIssued = run acceptAll demoCalls (constructor 1)"

definition demoRecomputed :: contract where
  "demoRecomputed = run acceptAll [UpdateReputationProfile 2] demoIssued"

definition demoOne :: contract where
  "demoOne = run acceptAll [AuthorizeIssuer 1 1, IssueEncryptedVC 1 1000 2 1 80 1] (constructor 1)"

definition demoRevoked :: contract where
  "demoRevoked = run acceptAll [RevokeCredential 1 2, UpdateReputationProfile 2] demoRecomputed"

text \<open>
  The sample history continued: a proof for subject \<open>2\<close> against the threshold 50, a
  request to reveal it that the oracle numbers 9, and the oracle's callback with the
  ABI encoding of the pair \<open>(50, 70)\<close>.
\<close>

definition demoCleartexts :: "byte list" where
  "demoCleartexts = replicate 31 0 @ [50] @ replicate 31 0 @ [70]"

definition demoRequested :: contract where
  "demoRequested =
     run acceptAll [GenerateReputationProof 2 50, RequestProofDecryption 3 9] demoRecomputed"

definition demoRevealed :: contract where
  "demoRevealed = run acceptAll [DecryptReputationProof 9 demoCleartexts []] demoRequested"

text \<open>
  Credential changes of the sample history: a third credential of score 10 for subject
  \<open>2\<close> with a recomputation, and the revocation of the first credential.
\<close>

definition demoChanges1 :: "call list" where
  "demoChanges1 = [IssueEncryptedVC 1 1002 2 1 10 1, UpdateReputationProfile 2]"

definition demoChanges2 :: "call list" where
  "demoChanges2 = [RevokeCredential 1 1]"

section \<open>Properties\<close>

subsection \<open>Unfolding sets\<close>

lemmas issue_defs = issueEncryptedVC_def issueAnonymousAttestation_def
  issueCrossPlatformCredential_def issueCommunityEndorsement_def issueSkillCertification_def
  issueDIDScore_def

lemmas proof_defs = generateReputationProof_def generateTimeBoundProof_def
  generateCompositeProof_def stored_def

lemmas other_defs = authorizeIssuer_def revokeCredential_def protectUserPrivacy_def
  requestProofDecryption_def decryptReputationProof_def

subsection \<open>Invariants of the reachable storage\<close>

text \<open>A recomputation writes the subject's profile, which stays initialized, and nothing else.\<close>

lemma updateReputationProfile_frame:
  assumes "updateReputationProfile subj s = Inr s'"
  shows "\<exists>p. s' = s\<lparr>reputationProfiles := (reputationProfiles s)(subj := p)\<rparr>
            \<and> isInitialized p \<and> isInitialized (reputationProfiles s subj)"
  using assms
  by (auto simp: updateReputationProfile_def Let_def split: if_splits prod.splits sum.splits)

text \<open>A slot whose id no issuing call assigned holds the zero credential.\<close>

lemma exec_unissued:
  assumes "exec chk c s = Inr s'" and "\<forall>i. i \<notin> I \<longrightarrow> verifiableCredentials s i = zeroVC"
  shows "\<forall>i. i \<notin> I \<union> issuedBy c s \<longrightarrow> verifiableCredentials s' i = zeroVC"
proof (cases c)
  case (RevokeCredential sender vid)
  then show ?thesis using assms
    by (auto simp: revokeCredential_def issuedBy_def Let_def zeroVC_def split: if_splits)
next
  case (UpdateReputationProfile subj)
  then show ?thesis using assms updateReputationProfile_frame[of subj s s']
    by (auto simp: issuedBy_def)
qed (use assms in \<open>auto simp: issue_defs proof_defs other_defs issuedBy_def Let_def
      split: if_splits prod.splits sum.splits option.splits\<close>)

lemma reachable_unissued:
  "reachable chk I s \<Longrightarrow> i \<notin> I \<Longrightarrow> verifiableCredentials s i = zeroVC"
proof (induction arbitrary: i rule: reachable.induct)
  case (deployed deployer)
  then show ?case by (simp add: constructor_def)
next
  case (called I s c s')
  then show ?case using exec_unissued[of chk c s s' I] by blast
qed

text \<open>Every storage that a history of calls leaves is reachable.\<close>

lemma reachable_run:
  "reachable chk I s \<Longrightarrow> reachable chk (I \<union> issuedIn chk cs s) (run chk cs s)"
proof (induction cs arbitrary: I s)
  case Nil
  then show ?case by (simp add: run_def)
next
  case (Cons c cs)
  show ?case
  proof (cases "exec chk c s")
    case (Inl e)
    then show ?thesis using Cons.IH[OF Cons.prems] by (simp add: run_def transact_def)
  next
    case (Inr s')
    have "reachable chk (I \<union> issuedBy c s) s'"
      using Cons.prems Inr by (rule reachable.called)
    from Cons.IH[OF this] show ?thesis
      using Inr by (simp add: run_def transact_def Un_assoc)
  qed
qed

subsection \<open>What each kind of call writes\<close>

lemma issueEncryptedVC_effect:
  assumes "issueEncryptedVC sender now subj ty score weight s = Inr s'"
  shows "userCredentials s' = (userCredentials s)(subj := userCredentials s subj @ [vcCount s + 1])"
    and "isInitialized (reputationProfiles s' subj)"
    and "a \<noteq> subj \<Longrightarrow> reputationProfiles s' a = reputationProfiles s a"
    and "reputationProofs s' = reputationProofs s"
    and "decryptedProofs s' = decryptedProofs s"
    and "requestToProofId s' = requestToProofId s"
  using assms by (auto simp: issueEncryptedVC_def Let_def split: if_splits)

lemma exec_issues:
  assumes "issues c" and "exec chk c s = Inr s'"
  shows "\<exists>sender now subj ty score weight.
           issueEncryptedVC sender now subj ty score weight s = Inr s'"
  using assms
  by (cases c; simp add: issueAnonymousAttestation_def issueCrossPlatformCredential_def
        issueCommunityEndorsement_def issueSkillCertification_def issueDIDScore_def
        split: if_splits; blast)

lemma exec_recomputes:
  assumes "recomputes c" and "exec chk c s = Inr s'"
  shows "\<exists>subj. updateReputationProfile subj s = Inr s'"
  using assms by (cases c) auto

lemma exec_keeps_credentials:
  assumes "exec chk c s = Inr s'" and "\<not> issues c" and "\<not> recomputes c"
  shows "reputationProfiles s' = reputationProfiles s"
    and "userCredentials s' = userCredentials s"
  using assms
  by (cases c; auto simp: proof_defs other_defs Let_def
        split: if_splits prod.splits sum.splits option.splits)+

text \<open>A profile is initialized exactly when the subject's credential list is not empty.\<close>

lemma exec_initialized:
  assumes "exec chk c s = Inr s'"
    and inv: "\<And>a. isInitialized (reputationProfiles s a) \<longleftrightarrow> userCredentials s a \<noteq> []"
  shows "isInitialized (reputationProfiles s' a) \<longleftrightarrow> userCredentials s' a \<noteq> []"
proof -
  consider "issues c" | "recomputes c" | "\<not> issues c" "\<not> recomputes c" by blast
  then show ?thesis
  proof cases
    case 1
    from exec_issues [OF this assms(1)] obtain sender now subj ty score weight
      where i: "issueEncryptedVC sender now subj ty score weight s = Inr s'" by blast
    show ?thesis
      using issueEncryptedVC_effect(1,2)[OF i] issueEncryptedVC_effect(3)[OF i, of a] inv[of a]
      by (cases "a = subj") simp_all
  next
    case 2
    from exec_recomputes [OF this assms(1)] obtain subj
      where u: "updateReputationProfile subj s = Inr s'" by blast
    from updateReputationProfile_frame [OF u] show ?thesis
      using inv[of a] inv[of subj] by (cases "a = subj") auto
  next
    case 3
    show ?thesis using exec_keeps_credentials [OF assms(1) 3] inv[of a] by simp
  qed
qed

lemma reachable_initialized:
  "reachable chk I s \<Longrightarrow> isInitialized (reputationProfiles s a) \<longleftrightarrow> userCredentials s a \<noteq> []"
proof (induction arbitrary: a rule: reachable.induct)
  case (deployed deployer)
  then show ?case by (simp add: constructor_def zeroProfile_def)
next
  case (called I s c s')
  show ?case by (rule exec_initialized [OF called.hyps(2)]) (rule called.IH)
qed

subsection \<open>The sample history, evaluated\<close>

lemma demoIssued_eq:
  "demoIssued = \<lparr>vcCount = 2,
     verifiableCredentials = (\<lambda>_. zeroVC)
       (1 := \<lparr>vcId = 1, issuer = 1, subject = 2, encryptedType = 1, encryptedScore = 80,
               encryptedWeight = 1, timestamp = 1000, isActive = True\<rparr>,
        2 := \<lparr>vcId = 2, issuer = 1, subject = 2, encryptedType = 1, encryptedScore = 60,
               encryptedWeight = 1, timestamp = 1001, isActive = True\<rparr>),
     reputationProfiles = (\<lambda>_. zeroProfile)
       (2 := \<lparr>encryptedTotalScore = 0, encryptedTrustLevel = 0,
               encryptedCredentialCount = 0, isInitialized = True\<rparr>),
     reputationProofs = (\<lambda>_. zeroProof),
     decryptedProofs = (\<lambda>_. zeroDecrypted),
     userCredentials = (\<lambda>_. [])(2 := [1, 2]),
     trustedIssuers = (\<lambda>_. False)(1 := True),
     requestToProofId = (\<lambda>_. 0),
     systemAdmin = 1\<rparr>"
  by (simp add: demoIssued_def demoCalls_def run_def transact_def authorizeIssuer_def
      issueEncryptedVC_def constructor_def zeroProfile_def FHE_asEuint32_def Let_def)

lemma demoCalls_ids: "issuedIn acceptAll demoCalls (constructor 1) = {1, 2}"
  by (simp add: demoCalls_def authorizeIssuer_def issueEncryptedVC_def issuedBy_def
      constructor_def zeroProfile_def FHE_asEuint32_def Let_def insert_commute)

lemma demoIssued_reachable: "reachable acceptAll {1, 2} demoIssued"
proof -
  have "reachable acceptAll ({} \<union> issuedIn acceptAll demoCalls (constructor 1)) demoIssued"
    unfolding demoIssued_def by (rule reachable_run [OF reachable.deployed])
  then show ?thesis by (simp only: demoCalls_ids Un_empty_left)
qed

lemma demoRecomputed_eq:
  "demoRecomputed = demoIssued\<lparr>reputationProfiles := (\<lambda>_. zeroProfile)
       (2 := \<lparr>encryptedTotalScore = 70, encryptedTrustLevel = 7,
               encryptedCredentialCount = 2, isInitialized = True\<rparr>)\<rparr>"
  by (simp add: demoRecomputed_def demoIssued_eq run_def transact_def
      updateReputationProfile_def updateStep_def calculateTrustLevel_def
      FHE_div_def FHE_max_def FHE_add_def FHE_mul_def FHE_asEuint32_def Let_def
      word_le_nat_alt)

lemma demoRecomputed_reachable: "reachable acceptAll {1, 2} demoRecomputed"
proof -
  have "reachable acceptAll ({1, 2} \<union> issuedIn acceptAll [UpdateReputationProfile 2] demoIssued)
          demoRecomputed"
    unfolding demoRecomputed_def by (rule reachable_run [OF demoIssued_reachable])
  moreover have "issuedIn acceptAll [UpdateReputationProfile 2] demoIssued = {}"
    by (simp add: issuedBy_def split: sum.splits)
  ultimately show ?thesis by simp
qed

lemma demoRecomputed_facts:
  "isInitialized (reputationProfiles demoRecomputed 2)"
  "vcCount demoRecomputed = 2"
  "encryptedTotalScore (reputationProfiles demoRecomputed 2) = 70"
  by (simp_all add: demoRecomputed_eq demoIssued_eq)

lemma demoOne_credentials:
  "userCredentials demoOne 2 = [1]"
  "isActive (verifiableCredentials demoOne 1)"
  "isInitialized (reputationProfiles demoOne 2)"
  by (simp_all add: demoOne_def run_def transact_def authorizeIssuer_def
      issueEncryptedVC_def constructor_def zeroProfile_def FHE_asEuint32_def Let_def)

lemma demoRevoked_eq:
  "demoRevoked = demoIssued\<lparr>
     verifiableCredentials := (\<lambda>_. zeroVC)
       (1 := \<lparr>vcId = 1, issuer = 1, subject = 2, encryptedType = 1, encryptedScore = 80,
               encryptedWeight = 1, timestamp = 1000, isActive = True\<rparr>,
        2 := \<lparr>vcId = 2, issuer = 1, subject = 2, encryptedType = 1, encryptedScore = 60,
               encryptedWeight = 1, timestamp = 1001, isActive = False\<rparr>),
     reputationProfiles := (\<lambda>_. zeroProfile)
       (2 := \<lparr>encryptedTotalScore = 80, encryptedTrustLevel = 8,
               encryptedCredentialCount = 1, isInitialized = True\<rparr>)\<rparr>"
  by (simp add: demoRevoked_def demoRecomputed_eq demoIssued_eq run_def transact_def
      revokeCredential_def updateReputationProfile_def updateStep_def calculateTrustLevel_def
      FHE_div_def FHE_max_def FHE_add_def FHE_mul_def FHE_asEuint32_def Let_def
      word_le_nat_alt)

subsection \<open>Proof generation\<close>

lemma generateReputationProof_result:
  assumes "isInitialized (reputationProfiles s subj)" and "vcCount s \<noteq> - 1"
  shows "generateReputationProof subj t s =
     Inr (vcCount s + 1,
          s\<lparr>vcCount := vcCount s + 1,
            reputationProofs := (reputationProofs s)(vcCount s + 1 :=
               \<lparr>encryptedMinScore = t,
                encryptedProof = (if t \<le> encryptedTotalScore (reputationProfiles s subj)
                                  then encryptedTotalScore (reputationProfiles s subj) else 0),
                isValid = True\<rparr>),
            decryptedProofs := (decryptedProofs s)(vcCount s + 1 :=
               \<lparr>minScore = 0, proofValue = 0, isRevealed = False\<rparr>)\<rparr>)"
  using assms
  by (simp add: generateReputationProof_def Let_def FHE_gte_def FHE_cmux_def FHE_asEuint32_def)

text \<open>
  C9. For an initialized subject (and a counter that can still be incremented),
  \<^verbatim>\<open>generateTimeBoundProof\<close> returns a proof id, whatever the threshold and the validity
  period; the proof stored at that id has \<open>isValid = False\<close>, and a request to reveal it,
  made on the storage the call left, fails with \<open>InvalidProof\<close>.
\<close>

theorem generateTimeBoundProof_unusable:
  assumes "isInitialized (reputationProfiles s subj)" and "vcCount s \<noteq> - 1"
  shows "\<exists>proofId s'. generateTimeBoundProof subj t period s = Inr (proofId, s')
           \<and> \<not> isValid (reputationProofs s' proofId)
           \<and> requestProofDecryption proofId reqId s' = Inl InvalidProof"
  using assms
  by (simp add: generateTimeBoundProof_def generateReputationProof_result
      requestProofDecryption_def)

theorem generateTimeBoundProof_unusable_witness:
  "isInitialized (reputationProfiles demoRecomputed 2) \<and> vcCount demoRecomputed \<noteq> - 1
   \<and> (\<exists>proofId s'. generateTimeBoundProof 2 50 3600 demoRecomputed = Inr (proofId, s')
           \<and> \<not> isValid (reputationProofs s' proofId)
           \<and> requestProofDecryption proofId 7 s' = Inl InvalidProof)"
proof -
  have a: "isInitialized (reputationProfiles demoRecomputed 2)"
    by (rule demoRecomputed_facts)
  have b: "vcCount demoRecomputed \<noteq> - 1"
    by (simp add: demoRecomputed_facts)
  show ?thesis
    using a b generateTimeBoundProof_unusable [OF a b, of 50 3600 7] by blast
qed

text \<open>
  C10. \<^verbatim>\<open>generateTimeBoundProof\<close> never reads its validity period: two calls that differ
  only in it return the same result, that is the same proof id and the same storage, or
  the same error.
\<close>

theorem generateTimeBoundProof_ignores_period:
  "generateTimeBoundProof subj t period1 s = generateTimeBoundProof subj t period2 s"
  by (simp add: generateTimeBoundProof_def)

theorem generateTimeBoundProof_ignores_period_witness:
  "generateTimeBoundProof 2 50 0 demoRecomputed = generateTimeBoundProof 2 50 86400 demoRecomputed
   \<and> (\<exists>s'. generateTimeBoundProof 2 50 0 demoRecomputed = Inr (3, s'))"
proof -
  have "\<exists>s'. generateTimeBoundProof 2 50 0 demoRecomputed = Inr (3, s')"
    by (simp add: generateTimeBoundProof_def generateReputationProof_result
        demoRecomputed_facts)
  then show ?thesis
    using generateTimeBoundProof_ignores_period [of 2 50 0 demoRecomputed 86400] by simp
qed

subsection \<open>Reading and revoking credentials\<close>

text \<open>
  C8, as the specification states it, fails: \<^verbatim>\<open>getEncryptedVC\<close> has no existence check.
  On the freshly deployed contract, where no credential was ever issued, reading id 5
  returns the all-zero fields and does not fail with \<open>NotFound\<close>.
\<close>

theorem getEncryptedVC_unknown_counterexample:
  "getEncryptedVC 5 (constructor 1) = Inr (0, 0, 0, 0, 0, 0, False)
   \<and> getEncryptedVC 5 (constructor 1) \<noteq> Inl NotFound"
  by (simp add: getEncryptedVC_def constructor_def zeroVC_def)

text \<open>
  C8, amended. The read accessor never fails: it returns the fields of the slot. For an id
  that no issuing call of the contract's history assigned, these are the all-zero fields
  (zero issuer and subject, zero type, score and weight, timestamp 0, inactive).
\<close>

theorem getEncryptedVC_total:
  "(\<exists>r. getEncryptedVC vid s = Inr r)
   \<and> (reachable chk I s \<and> vid \<notin> I
        \<longrightarrow> getEncryptedVC vid s = Inr (0, 0, 0, 0, 0, 0, False))"
proof -
  have "getEncryptedVC vid s = Inr (0, 0, 0, 0, 0, 0, False)"
    if "reachable chk I s" and "vid \<notin> I"
    using reachable_unissued [OF that] by (simp add: getEncryptedVC_def zeroVC_def)
  then show ?thesis by (auto simp: getEncryptedVC_def Let_def)
qed

theorem getEncryptedVC_total_witness:
  "reachable acceptAll {1, 2} demoRecomputed \<and> 5 \<notin> {1, 2 :: uint256}
   \<and> getEncryptedVC 5 demoRecomputed = Inr (0, 0, 0, 0, 0, 0, False)
   \<and> getEncryptedVC 2 demoRecomputed = Inr (1, 2, 1, 60, 1, 1001, True)"
proof -
  have "getEncryptedVC 2 demoRecomputed = Inr (1, 2, 1, 60, 1, 1001, True)"
    by (simp add: getEncryptedVC_def demoRecomputed_eq demoIssued_eq)
  then show ?thesis
    using demoRecomputed_reachable
      getEncryptedVC_total [of 5 demoRecomputed acceptAll "{1, 2}"] by simp
qed

text \<open>
  C7, as the specification states it, fails: \<^verbatim>\<open>revokeCredential\<close> has one
  \<^verbatim>\<open>require\<close>, the comparison of the slot's issuer with the caller. On the freshly
  deployed contract, revoking the never-issued id 5 as caller 1 fails with
  \<open>Unauthorized\<close> (the revert \<^verbatim>\<open>"Not issuer"\<close>), not with \<open>NotFound\<close>.
\<close>

theorem revokeCredential_unknown_counterexample:
  "revokeCredential 1 5 (constructor 1) = Inl Unauthorized
   \<and> revokeCredential 1 5 (constructor 1) \<noteq> Inl NotFound"
  by (simp add: revokeCredential_def constructor_def zeroVC_def)

text \<open>
  C7, amended. \<^verbatim>\<open>revokeCredential\<close> fails with \<open>Unauthorized\<close> whenever the caller is
  not the issuer stored in the slot, and never with \<open>NotFound\<close>; the slot of an id that
  was never issued stores the zero address as issuer, so there every caller but the zero
  address gets \<open>Unauthorized\<close>. On success the credential is inactive and its other fields
  and all other storage are as before, and a second revocation by the same caller succeeds
  and changes nothing.
\<close>

theorem revokeCredential_spec:
  "(sender \<noteq> issuer (verifiableCredentials s vid)
      \<longrightarrow> revokeCredential sender vid s = Inl Unauthorized)
   \<and> revokeCredential sender vid s \<noteq> Inl NotFound
   \<and> (reachable chk I s \<and> vid \<notin> I \<and> sender \<noteq> 0
      \<longrightarrow> revokeCredential sender vid s = Inl Unauthorized)
   \<and> (sender = issuer (verifiableCredentials s vid)
      \<longrightarrow> (\<exists>s'. revokeCredential sender vid s = Inr s'
             \<and> s' = s\<lparr>verifiableCredentials := (verifiableCredentials s)
                       (vid := (verifiableCredentials s vid)\<lparr>isActive := False\<rparr>)\<rparr>
             \<and> \<not> isActive (verifiableCredentials s' vid)
             \<and> revokeCredential sender vid s' = Inr s'))"
proof -
  have "revokeCredential sender vid s = Inl Unauthorized"
    if "reachable chk I s" and "vid \<notin> I" and "sender \<noteq> 0"
    using reachable_unissued [OF that(1,2)] that(3)
    by (simp add: revokeCredential_def zeroVC_def)
  then show ?thesis
    by (auto simp: revokeCredential_def Let_def)
qed

theorem revokeCredential_spec_witness:
  "revokeCredential 3 2 demoRecomputed = Inl Unauthorized
   \<and> reachable acceptAll {1, 2} demoRecomputed \<and> 5 \<notin> {1, 2 :: uint256}
   \<and> revokeCredential 1 5 demoRecomputed = Inl Unauthorized
   \<and> (\<exists>s'. revokeCredential 1 2 demoRecomputed = Inr s'
          \<and> \<not> isActive (verifiableCredentials s' 2)
          \<and> revokeCredential 1 2 s' = Inr s')"
proof -
  have a: "(3 :: address) \<noteq> issuer (verifiableCredentials demoRecomputed 2)"
    and b: "(1 :: address) = issuer (verifiableCredentials demoRecomputed 2)"
    by (simp_all add: demoRecomputed_eq demoIssued_eq)
  have c: "(1 :: address) \<noteq> 0" and d: "5 \<notin> {1, 2 :: uint256}"
    by simp_all
  show ?thesis
    using a c d demoRecomputed_reachable
      revokeCredential_spec [of 3 demoRecomputed 2 acceptAll "{1, 2}"]
      revokeCredential_spec [of 1 demoRecomputed 5 acceptAll "{1, 2}"]
      revokeCredential_spec [of 1 demoRecomputed 2 acceptAll "{1, 2}", THEN conjunct2,
        THEN conjunct2, THEN conjunct2, rule_format, OF b]
    by blast
qed

subsection \<open>Consistency\<close>

text \<open>
  C6, as the specification states it, fails twice. A subject that never received a
  credential (profile never initialized) gets the value 100 and no \<open>ProfileUninitialized\<close>:
  the function has no \<^verbatim>\<open>require\<close>. And the guard counts the credentials ever issued,
  not the active ones: subject 2 of the sample history, after its second credential is
  revoked and its profile recomputed, has exactly one active credential and gets 80.
\<close>

theorem calculateConsistency_counterexample:
  "userCredentials (constructor 1) 2 = []
   \<and> \<not> isInitialized (reputationProfiles (constructor 1) 2)
   \<and> calculateConsistency 2 (constructor 1) = Inr 100
   \<and> activeCredentials demoRevoked 2 = [1]
   \<and> calculateConsistency 2 demoRevoked = Inr 80"
  by (simp add: calculateConsistency_def constructor_def zeroProfile_def FHE_asEuint32_def
      demoRevoked_eq demoIssued_eq activeCredentials_def consistencyStep_def
      FHE_div_def FHE_sub_def FHE_add_def FHE_mul_def Let_def)

text \<open>
  C6, amended. \<^verbatim>\<open>calculateConsistency\<close> returns the maximum 100 for every subject to
  whom fewer than two credentials were ever issued: exactly one credential, or none. It
  never fails with \<open>ProfileUninitialized\<close>; for a subject whose profile was never
  initialized it returns 100.
\<close>

theorem calculateConsistency_few:
  "(length (userCredentials s subj) < 2 \<longrightarrow> calculateConsistency subj s = Inr 100)
   \<and> calculateConsistency subj s \<noteq> Inl ProfileUninitialized
   \<and> (reachable chk I s \<and> \<not> isInitialized (reputationProfiles s subj)
        \<longrightarrow> calculateConsistency subj s = Inr 100)"
proof -
  have few: "calculateConsistency subj s = Inr 100" if "length (userCredentials s subj) < 2"
    using that by (simp add: calculateConsistency_def FHE_asEuint32_def)
  have "calculateConsistency subj s = Inr 100"
    if "reachable chk I s" and "\<not> isInitialized (reputationProfiles s subj)"
    using reachable_initialized [OF that(1), of subj] that(2) few by simp
  moreover have "calculateConsistency subj s \<noteq> Inl ProfileUninitialized"
    by (auto simp: calculateConsistency_def FHE_div_def Let_def split: if_splits sum.splits)
  ultimately show ?thesis using few by blast
qed

theorem calculateConsistency_few_witness:
  "length (userCredentials demoOne 2) = 1 \<and> activeCredentials demoOne 2 = [1]
   \<and> calculateConsistency 2 demoOne = Inr 100
   \<and> reachable acceptAll {1, 2} demoRecomputed
   \<and> \<not> isInitialized (reputationProfiles demoRecomputed 9)
   \<and> calculateConsistency 9 demoRecomputed = Inr 100"
proof -
  have a: "length (userCredentials demoOne 2) < 2"
    and b: "\<not> isInitialized (reputationProfiles demoRecomputed 9)"
    by (simp_all add: demoOne_credentials demoRecomputed_eq demoIssued_eq zeroProfile_def)
  show ?thesis
    using a b demoRecomputed_reachable
      calculateConsistency_few [of demoOne 2 acceptAll "{}"]
      calculateConsistency_few [of demoRecomputed 9 acceptAll "{1, 2}"]
    by (simp add: demoOne_credentials activeCredentials_def)
qed

subsection \<open>Recomputing a profile\<close>

lemma updateLoop_sums:
  "updateLoop vcs cs (a, b, c) =
     (a + sum_list (map (\<lambda>i. encryptedScore (vcs i) * encryptedWeight (vcs i))
                     (filter (\<lambda>i. isActive (vcs i)) cs)),
      b + sum_list (map (\<lambda>i. encryptedWeight (vcs i)) (filter (\<lambda>i. isActive (vcs i)) cs)),
      c + of_nat (length (filter (\<lambda>i. isActive (vcs i)) cs)))"
  by (induction cs arbitrary: a b c)
     (simp_all add: updateStep_def FHE_add_def FHE_mul_def FHE_asEuint32_def Let_def add.assoc)

lemma FHE_max_is_max: "FHE_max a b = max a b"
  by (simp add: FHE_max_def max_def)

lemma max_one_nonzero: "max w (1 :: 32 word) \<noteq> 0"
  by (metis max.cobounded2 word_le_0_iff zero_neq_one)

lemma updateReputationProfile_initialized:
  assumes "isInitialized (reputationProfiles s subj)"
  shows "updateReputationProfile subj s =
     Inr (s\<lparr>reputationProfiles := (reputationProfiles s)(subj :=
        (reputationProfiles s subj)\<lparr>encryptedTotalScore :=
            weightedScoreSum s (activeCredentials s subj)
              div max (weightSum s (activeCredentials s subj)) 1,
         encryptedCredentialCount := of_nat (length (activeCredentials s subj)),
         encryptedTrustLevel :=
            (weightedScoreSum s (activeCredentials s subj)
              div max (weightSum s (activeCredentials s subj)) 1) div 10
            + of_nat (length (activeCredentials s subj)) div 5\<rparr>)\<rparr>)"
  using assms max_one_nonzero [of "weightSum s (activeCredentials s subj)"]
  by (simp add: updateReputationProfile_def updateLoop_sums calculateTrustLevel_def
      FHE_div_def FHE_max_is_max FHE_add_def FHE_asEuint32_def
      weightedScoreSum_def weightSum_def activeCredentials_def Let_def)

text \<open>Where the sums over the naturals fit 32 bits, the \<^verbatim>\<open>euint32\<close> sums do not wrap.\<close>

lemma unat_sum_list:
  fixes f :: "'a \<Rightarrow> 32 word"
  assumes "sum_list (map (\<lambda>i. unat (f i)) xs) < 2 ^ 32"
  shows "unat (sum_list (map f xs)) = sum_list (map (\<lambda>i. unat (f i)) xs)"
  using assms
proof (induction xs)
  case Nil
  then show ?case by simp
next
  case (Cons x xs)
  then have "unat (sum_list (map f xs)) = sum_list (map (\<lambda>i. unat (f i)) xs)" by simp
  moreover have "unat (f x) + sum_list (map (\<lambda>i. unat (f i)) xs) < 2 ^ LENGTH(32)"
    using Cons.prems by simp
  ultimately show ?case
    by (simp add: unat_add_lem [THEN iffD1])
qed

lemma unat_weightSum:
  assumes "plainWeightSum s ids < 2 ^ 32"
  shows "unat (weightSum s ids) = plainWeightSum s ids"
  using assms unat_sum_list [of "\<lambda>i. encryptedWeight (verifiableCredentials s i)" ids]
  by (simp add: weightSum_def plainWeightSum_def)

lemma unat_weightedScoreSum:
  assumes "plainScoreSum s ids < 2 ^ 32"
  shows "unat (weightedScoreSum s ids) = plainScoreSum s ids"
proof -
  let ?f = "\<lambda>i. encryptedScore (verifiableCredentials s i)
                 * encryptedWeight (verifiableCredentials s i)"
  let ?g = "\<lambda>i. unat (encryptedScore (verifiableCredentials s i))
                 * unat (encryptedWeight (verifiableCredentials s i))"
  have each: "unat (?f i) = ?g i" if "i \<in> set ids" for i
  proof -
    have "?g i \<in> set (map ?g ids)" using that by simp
    then have "?g i \<le> sum_list (map ?g ids)" by (simp add: member_le_sum_list)
    then have "?g i < 2 ^ LENGTH(32)" using assms by (simp add: plainScoreSum_def)
    then show ?thesis by (simp add: unat_mult_lem [THEN iffD1])
  qed
  then have "map (\<lambda>i. unat (?f i)) ids = map ?g ids" by simp
  then have eq: "sum_list (map (\<lambda>i. unat (?f i)) ids) = plainScoreSum s ids"
    unfolding plainScoreSum_def by (rule arg_cong)
  have "unat (sum_list (map ?f ids)) = sum_list (map (\<lambda>i. unat (?f i)) ids)"
    by (rule unat_sum_list) (use eq assms in linarith)
  then show ?thesis
    unfolding weightedScoreSum_def using eq by linarith
qed

lemma unat_trust:
  fixes x y :: "32 word"
  shows "unat (x div 10 + y div 5) = unat x div 10 + unat y div 5"
proof -
  have "unat x < 2 ^ 32" "unat y < 2 ^ 32"
    using unsigned_less [of x] unsigned_less [of y] by simp_all
  then have "unat x div 10 + unat y div 5 < 2 ^ LENGTH(32)" by simp
  then have "unat (x div 10) + unat (y div 5) < 2 ^ LENGTH(32)"
    by (simp add: unat_div)
  then show ?thesis
    by (simp add: unat_add_lem [THEN iffD1] unat_div)
qed

lemma unat_max_one: "unat (max w (1 :: 32 word)) = max (unat w) 1"
  by (simp add: max_def word_le_nat_alt)

lemma demoIssued_active:
  "activeCredentials demoIssued 2 = [1, 2]"
  "plainScoreSum demoIssued [1, 2] = 140"
  "plainWeightSum demoIssued [1, 2] = 2"
  "isInitialized (reputationProfiles demoIssued 2)"
  "\<not> isInitialized (reputationProfiles demoIssued 9)"
  "userCredentials demoIssued 9 = []"
  "length (activeCredentials demoIssued 2) = 2"
  by (simp_all add: demoIssued_eq activeCredentials_def plainScoreSum_def plainWeightSum_def
      zeroProfile_def)

text \<open>
  C1. A subject whose profile was never initialized, which in every reachable storage is
  a subject without any credential, cannot be recomputed: the call fails with
  \<open>ProfileUninitialized\<close>. For an initialized subject the call succeeds and writes only the
  subject's profile: the total score is the sum of score times weight over the active
  credentials divided by the larger of the sum of their weights and 1, the count is the
  number of active credentials, and the trust level is total score div 10 plus count div
  5. All values are \<^verbatim>\<open>euint32\<close>: sums and products are taken modulo \<open>2 ^ 32\<close>, and when
  the sums over the naturals stay below \<open>2 ^ 32\<close> the stored values are the quotients of
  those sums.
\<close>

theorem updateReputationProfile_spec:
  "(\<not> isInitialized (reputationProfiles s subj)
      \<longrightarrow> updateReputationProfile subj s = Inl ProfileUninitialized)
   \<and> (reachable chk I s \<and> userCredentials s subj = []
      \<longrightarrow> updateReputationProfile subj s = Inl ProfileUninitialized)
   \<and> (isInitialized (reputationProfiles s subj)
      \<longrightarrow> (\<exists>s'. updateReputationProfile subj s = Inr s'
            \<and> s' = s\<lparr>reputationProfiles :=
                       (reputationProfiles s)(subj := reputationProfiles s' subj)\<rparr>
            \<and> isInitialized (reputationProfiles s' subj)
            \<and> encryptedTotalScore (reputationProfiles s' subj)
                = weightedScoreSum s (activeCredentials s subj)
                    div max (weightSum s (activeCredentials s subj)) 1
            \<and> encryptedCredentialCount (reputationProfiles s' subj)
                = of_nat (length (activeCredentials s subj))
            \<and> encryptedTrustLevel (reputationProfiles s' subj)
                = encryptedTotalScore (reputationProfiles s' subj) div 10
                  + encryptedCredentialCount (reputationProfiles s' subj) div 5
            \<and> (plainScoreSum s (activeCredentials s subj) < 2 ^ 32
                 \<and> plainWeightSum s (activeCredentials s subj) < 2 ^ 32
                 \<and> length (activeCredentials s subj) < 2 ^ 32
               \<longrightarrow> unat (encryptedTotalScore (reputationProfiles s' subj))
                     = plainScoreSum s (activeCredentials s subj)
                         div max (plainWeightSum s (activeCredentials s subj)) 1
                   \<and> unat (encryptedCredentialCount (reputationProfiles s' subj))
                     = length (activeCredentials s subj)
                   \<and> unat (encryptedTrustLevel (reputationProfiles s' subj))
                     = unat (encryptedTotalScore (reputationProfiles s' subj)) div 10
                       + length (activeCredentials s subj) div 5)))"
proof (intro conjI impI)
  assume "\<not> isInitialized (reputationProfiles s subj)"
  then show "updateReputationProfile subj s = Inl ProfileUninitialized"
    by (simp add: updateReputationProfile_def)
next
  assume "reachable chk I s \<and> userCredentials s subj = []"
  then have "\<not> isInitialized (reputationProfiles s subj)"
    using reachable_initialized [of chk I s subj] by simp
  then show "updateReputationProfile subj s = Inl ProfileUninitialized"
    by (simp add: updateReputationProfile_def)
next
  assume init: "isInitialized (reputationProfiles s subj)"
  let ?act = "activeCredentials s subj"
  let ?total = "weightedScoreSum s ?act div max (weightSum s ?act) 1"
  let ?count = "of_nat (length ?act) :: 32 word"
  let ?p = "(reputationProfiles s subj)\<lparr>encryptedTotalScore := ?total,
              encryptedCredentialCount := ?count,
              encryptedTrustLevel := ?total div 10 + ?count div 5\<rparr>"
  let ?s' = "s\<lparr>reputationProfiles := (reputationProfiles s)(subj := ?p)\<rparr>"
  have res: "updateReputationProfile subj s = Inr ?s'"
    by (rule updateReputationProfile_initialized [OF init])
  have plain: "unat ?total = plainScoreSum s ?act div max (plainWeightSum s ?act) 1
      \<and> unat ?count = length ?act
      \<and> unat (?total div 10 + ?count div 5) = unat ?total div 10 + length ?act div 5"
    if b: "plainScoreSum s ?act < 2 ^ 32 \<and> plainWeightSum s ?act < 2 ^ 32
           \<and> length ?act < 2 ^ 32"
  proof -
    have c: "unat ?count = length ?act"
      using b by (simp add: unat_of_nat)
    have "unat ?total = unat (weightedScoreSum s ?act) div max (unat (weightSum s ?act)) 1"
      by (simp add: unat_div unat_max_one)
    then have t: "unat ?total = plainScoreSum s ?act div max (plainWeightSum s ?act) 1"
      using b by (simp add: unat_weightedScoreSum unat_weightSum)
    show ?thesis using c t by (simp only: unat_trust)
  qed
  show "\<exists>s'. updateReputationProfile subj s = Inr s'
            \<and> s' = s\<lparr>reputationProfiles :=
                       (reputationProfiles s)(subj := reputationProfiles s' subj)\<rparr>
            \<and> isInitialized (reputationProfiles s' subj)
            \<and> encryptedTotalScore (reputationProfiles s' subj)
                = weightedScoreSum s (activeCredentials s subj)
                    div max (weightSum s (activeCredentials s subj)) 1
            \<and> encryptedCredentialCount (reputationProfiles s' subj)
                = of_nat (length (activeCredentials s subj))
            \<and> encryptedTrustLevel (reputationProfiles s' subj)
                = encryptedTotalScore (reputationProfiles s' subj) div 10
                  + encryptedCredentialCount (reputationProfiles s' subj) div 5
            \<and> (plainScoreSum s (activeCredentials s subj) < 2 ^ 32
                 \<and> plainWeightSum s (activeCredentials s subj) < 2 ^ 32
                 \<and> length (activeCredentials s subj) < 2 ^ 32
               \<longrightarrow> unat (encryptedTotalScore (reputationProfiles s' subj))
                     = plainScoreSum s (activeCredentials s subj)
                         div max (plainWeightSum s (activeCredentials s subj)) 1
                   \<and> unat (encryptedCredentialCount (reputationProfiles s' subj))
                     = length (activeCredentials s subj)
                   \<and> unat (encryptedTrustLevel (reputationProfiles s' subj))
                     = unat (encryptedTotalScore (reputationProfiles s' subj)) div 10
                       + length (activeCredentials s subj) div 5)"
  proof (rule exI [of _ ?s'], intro conjI)
    show "updateReputationProfile subj s = Inr ?s'" by (rule res)
  qed (use init plain in simp_all)
qed

theorem updateReputationProfile_spec_witness:
  "\<not> isInitialized (reputationProfiles demoIssued 9)
   \<and> reachable acceptAll {1, 2} demoIssued \<and> userCredentials demoIssued 9 = []
   \<and> updateReputationProfile 9 demoIssued = Inl ProfileUninitialized
   \<and> isInitialized (reputationProfiles demoIssued 2)
   \<and> (\<exists>s'. updateReputationProfile 2 demoIssued = Inr s'
          \<and> unat (encryptedTotalScore (reputationProfiles s' 2)) = 70
          \<and> unat (encryptedCredentialCount (reputationProfiles s' 2)) = 2
          \<and> unat (encryptedTrustLevel (reputationProfiles s' 2)) = 7)"
proof -
  note th9 = updateReputationProfile_spec [of demoIssued 9 acceptAll "{1, 2}"]
  note th2 = updateReputationProfile_spec [of demoIssued 2 acceptAll "{1, 2}"]
  have fail: "updateReputationProfile 9 demoIssued = Inl ProfileUninitialized"
    using th9 demoIssued_active(5) by blast
  from th2 demoIssued_active(4) obtain s' where
    r: "updateReputationProfile 2 demoIssued = Inr s'" and
    p: "plainScoreSum demoIssued (activeCredentials demoIssued 2) < 2 ^ 32
          \<and> plainWeightSum demoIssued (activeCredentials demoIssued 2) < 2 ^ 32
          \<and> length (activeCredentials demoIssued 2) < 2 ^ 32
        \<longrightarrow> unat (encryptedTotalScore (reputationProfiles s' 2))
              = plainScoreSum demoIssued (activeCredentials demoIssued 2)
                  div max (plainWeightSum demoIssued (activeCredentials demoIssued 2)) 1
            \<and> unat (encryptedCredentialCount (reputationProfiles s' 2))
              = length (activeCredentials demoIssued 2)
            \<and> unat (encryptedTrustLevel (reputationProfiles s' 2))
              = unat (encryptedTotalScore (reputationProfiles s' 2)) div 10
                + length (activeCredentials demoIssued 2) div 5"
    by blast
  from p have "unat (encryptedTotalScore (reputationProfiles s' 2)) = 70
      \<and> unat (encryptedCredentialCount (reputationProfiles s' 2)) = 2
      \<and> unat (encryptedTrustLevel (reputationProfiles s' 2)) = 7"
    by (simp only: demoIssued_active(7) demoIssued_active(1-3)) (simp add: max_def)
  with r fail demoIssued_reachable demoIssued_active show ?thesis by blast
qed

subsection \<open>Recomputing twice, and after a revocation\<close>

text \<open>Calls that neither issue nor revoke leave the credentials and their lists alone.\<close>

lemma exec_keeps_verifiableCredentials:
  assumes "exec chk c s = Inr s'" and "\<not> issues c" and "\<not> revokes c"
  shows "verifiableCredentials s' = verifiableCredentials s"
proof (cases "recomputes c")
  case True
  from exec_recomputes [OF this assms(1)] obtain subj
    where "updateReputationProfile subj s = Inr s'" by blast
  from updateReputationProfile_frame [OF this] show ?thesis by auto
next
  case False
  with assms show ?thesis
    by (cases c; auto simp: proof_defs other_defs Let_def
          split: if_splits prod.splits sum.splits option.splits)
qed

lemma exec_keeps_userCredentials:
  assumes "exec chk c s = Inr s'" and "\<not> issues c"
  shows "userCredentials s' = userCredentials s"
    and "isInitialized (reputationProfiles s a) \<Longrightarrow> isInitialized (reputationProfiles s' a)"
proof -
  have "userCredentials s' = userCredentials s
      \<and> (isInitialized (reputationProfiles s a) \<longrightarrow> isInitialized (reputationProfiles s' a))"
  proof (cases "recomputes c")
    case True
    from exec_recomputes [OF this assms(1)] obtain subj
      where "updateReputationProfile subj s = Inr s'" by blast
    from updateReputationProfile_frame [OF this] show ?thesis by auto
  next
    case False
    then show ?thesis using exec_keeps_credentials [OF assms(1) assms(2)] by simp
  qed
  then show "userCredentials s' = userCredentials s"
    and "isInitialized (reputationProfiles s a) \<Longrightarrow> isInitialized (reputationProfiles s' a)"
    by simp_all
qed

lemma run_keeps_credentials:
  assumes "list_all (\<lambda>c. \<not> issues c \<and> \<not> revokes c) cs"
  shows "verifiableCredentials (run chk cs s) = verifiableCredentials s
     \<and> userCredentials (run chk cs s) = userCredentials s
     \<and> (isInitialized (reputationProfiles s a)
          \<longrightarrow> isInitialized (reputationProfiles (run chk cs s) a))"
  using assms
proof (induction cs arbitrary: s)
  case Nil
  then show ?case by (simp add: run_def)
next
  case (Cons c cs)
  then have c: "\<not> issues c" "\<not> revokes c"
    and cs: "list_all (\<lambda>c. \<not> issues c \<and> \<not> revokes c) cs" by simp_all
  have r: "run chk (c # cs) s = run chk cs (transact chk s c)"
    by (simp add: run_def)
  have step: "verifiableCredentials (transact chk s c) = verifiableCredentials s
     \<and> userCredentials (transact chk s c) = userCredentials s
     \<and> (isInitialized (reputationProfiles s a)
          \<longrightarrow> isInitialized (reputationProfiles (transact chk s c) a))"
  proof (cases "exec chk c s")
    case (Inl e)
    then show ?thesis by (simp add: transact_def)
  next
    case (Inr s')
    then show ?thesis
      using exec_keeps_verifiableCredentials [OF Inr c] exec_keeps_userCredentials [OF Inr c(1)]
      by (simp add: transact_def)
  qed
  show ?case using Cons.IH [OF cs, of "transact chk s c"] step by (simp add: r)
qed

lemma aggregates_cong:
  assumes "verifiableCredentials t = verifiableCredentials s"
    and "userCredentials t = userCredentials s"
  shows "activeCredentials t subj = activeCredentials s subj"
    and "weightedScoreSum t ids = weightedScoreSum s ids"
    and "weightSum t ids = weightSum s ids"
  using assms by (simp_all add: activeCredentials_def weightedScoreSum_def weightSum_def)

text \<open>
  C3. For an initialized subject the recomputation succeeds, and a second recomputation
  right after it returns the very same storage, so the three profile fields are
  identical after each call. The same holds for the subject's profile when other calls
  run between the two recomputations, as long as none of them issues or revokes a
  credential.
\<close>

theorem updateReputationProfile_idempotent:
  assumes "isInitialized (reputationProfiles s subj)"
    and "list_all (\<lambda>c. \<not> issues c \<and> \<not> revokes c) cs"
  shows "\<exists>s1 s2. updateReputationProfile subj s = Inr s1
           \<and> updateReputationProfile subj s1 = Inr s1
           \<and> updateReputationProfile subj (run chk cs s1) = Inr s2
           \<and> reputationProfiles s2 subj = reputationProfiles s1 subj"
proof -
  let ?act = "activeCredentials s subj"
  let ?total = "weightedScoreSum s ?act div max (weightSum s ?act) 1"
  let ?count = "of_nat (length ?act) :: 32 word"
  let ?p = "(reputationProfiles s subj)\<lparr>encryptedTotalScore := ?total,
              encryptedCredentialCount := ?count,
              encryptedTrustLevel := ?total div 10 + ?count div 5\<rparr>"
  let ?s1 = "s\<lparr>reputationProfiles := (reputationProfiles s)(subj := ?p)\<rparr>"
  let ?t = "run chk cs ?s1"
  have first: "updateReputationProfile subj s = Inr ?s1"
    by (rule updateReputationProfile_initialized [OF assms(1)])
  have init1: "isInitialized (reputationProfiles ?s1 subj)"
    using assms(1) by simp
  have agg1: "activeCredentials ?s1 subj = ?act"
    "weightedScoreSum ?s1 ?act = weightedScoreSum s ?act"
    "weightSum ?s1 ?act = weightSum s ?act"
    by (rule aggregates_cong; simp)+
  have second: "updateReputationProfile subj ?s1 = Inr ?s1"
    using updateReputationProfile_initialized [OF init1] by (simp add: agg1)
  note keep = run_keeps_credentials [OF assms(2), of chk ?s1 subj]
  have initt: "isInitialized (reputationProfiles ?t subj)"
    using keep init1 by blast
  have aggt: "activeCredentials ?t subj = ?act"
    "weightedScoreSum ?t ?act = weightedScoreSum s ?act"
    "weightSum ?t ?act = weightSum s ?act"
    using keep agg1 aggregates_cong [of ?t ?s1] by simp_all
  let ?s2 = "?t\<lparr>reputationProfiles := (reputationProfiles ?t)(subj :=
      (reputationProfiles ?t subj)\<lparr>encryptedTotalScore := ?total,
              encryptedCredentialCount := ?count,
              encryptedTrustLevel := ?total div 10 + ?count div 5\<rparr>)\<rparr>"
  have third: "updateReputationProfile subj ?t = Inr ?s2"
    using updateReputationProfile_initialized [OF initt] by (simp only: aggt)
  have same: "reputationProfiles ?s2 subj = reputationProfiles ?s1 subj"
    using initt assms(1) by (intro ReputationProfile.equality) simp_all
  from first second third same show ?thesis by blast
qed

theorem updateReputationProfile_idempotent_witness:
  "isInitialized (reputationProfiles demoIssued 2)
   \<and> \<not> issues (GenerateReputationProof 2 50) \<and> \<not> revokes (GenerateReputationProof 2 50)
   \<and> (\<exists>s1 s2. updateReputationProfile 2 demoIssued = Inr s1
           \<and> updateReputationProfile 2 s1 = Inr s1
           \<and> updateReputationProfile 2 (run acceptAll [GenerateReputationProof 2 50] s1) = Inr s2
           \<and> reputationProfiles s2 2 = reputationProfiles s1 2)"
proof -
  have a: "isInitialized (reputationProfiles demoIssued 2)"
    by (rule demoIssued_active)
  have b: "list_all (\<lambda>c. \<not> issues c \<and> \<not> revokes c) [GenerateReputationProof 2 50]"
    by simp
  show ?thesis
    using a updateReputationProfile_idempotent [OF a b, of acceptAll] by simp
qed

lemma revokeCredential_effect:
  assumes "revokeCredential sender c s = Inr s1"
  shows "s1 = s\<lparr>verifiableCredentials := (verifiableCredentials s)
                 (c := (verifiableCredentials s c)\<lparr>isActive := False\<rparr>)\<rparr>"
  using assms by (auto simp: revokeCredential_def Let_def split: if_splits)

lemma revoked_aggregates:
  assumes "s1 = s\<lparr>verifiableCredentials := (verifiableCredentials s)
                 (c := (verifiableCredentials s c)\<lparr>isActive := False\<rparr>)\<rparr>"
  shows "activeCredentials s1 subj = filter (\<lambda>i. i \<noteq> c) (activeCredentials s subj)"
    and "weightedScoreSum s1 ids = weightedScoreSum s ids"
    and "weightSum s1 ids = weightSum s ids"
proof -
  show "activeCredentials s1 subj = filter (\<lambda>i. i \<noteq> c) (activeCredentials s subj)"
    unfolding activeCredentials_def assms by (auto intro: filter_cong)
  have "encryptedScore (verifiableCredentials s1 i) = encryptedScore (verifiableCredentials s i)
      \<and> encryptedWeight (verifiableCredentials s1 i) = encryptedWeight (verifiableCredentials s i)"
    for i
    unfolding assms by simp
  then show "weightedScoreSum s1 ids = weightedScoreSum s ids"
    and "weightSum s1 ids = weightSum s ids"
    by (simp_all add: weightedScoreSum_def weightSum_def)
qed

text \<open>
  C4. Let \<open>c\<close> be a credential issued to subject \<open>subj\<close>, in a reachable storage, and let a
  revocation of \<open>c\<close> succeed. Then the recomputation of \<open>subj\<close> succeeds, and the profile
  it stores is the one of the subject's other active credentials: total score, count and
  weight sum are taken over the active credentials different from \<open>c\<close>. The read accessor
  still returns \<open>c\<close> with the fields it had, but inactive.
\<close>

theorem revoke_then_recompute:
  assumes "reachable chk I s" and "c \<in> set (userCredentials s subj)"
    and "revokeCredential sender c s = Inr s1"
  shows "\<exists>s2. updateReputationProfile subj s1 = Inr s2
     \<and> encryptedTotalScore (reputationProfiles s2 subj)
         = weightedScoreSum s (filter (\<lambda>i. i \<noteq> c) (activeCredentials s subj))
             div max (weightSum s (filter (\<lambda>i. i \<noteq> c) (activeCredentials s subj))) 1
     \<and> encryptedCredentialCount (reputationProfiles s2 subj)
         = of_nat (length (filter (\<lambda>i. i \<noteq> c) (activeCredentials s subj)))
     \<and> encryptedTrustLevel (reputationProfiles s2 subj)
         = encryptedTotalScore (reputationProfiles s2 subj) div 10
           + encryptedCredentialCount (reputationProfiles s2 subj) div 5
     \<and> c \<notin> set (activeCredentials s2 subj)
     \<and> getEncryptedVC c s2 =
         Inr (issuer (verifiableCredentials s c), subject (verifiableCredentials s c),
              encryptedType (verifiableCredentials s c),
              encryptedScore (verifiableCredentials s c),
              encryptedWeight (verifiableCredentials s c),
              timestamp (verifiableCredentials s c), False)"
proof -
  let ?rest = "filter (\<lambda>i. i \<noteq> c) (activeCredentials s subj)"
  note eff = revokeCredential_effect [OF assms(3)]
  note agg = revoked_aggregates [OF eff]
  have "userCredentials s subj \<noteq> []" using assms(2) by auto
  then have "isInitialized (reputationProfiles s subj)"
    using reachable_initialized [OF assms(1), of subj] by simp
  then have init1: "isInitialized (reputationProfiles s1 subj)"
    by (simp add: eff)
  let ?total = "weightedScoreSum s ?rest div max (weightSum s ?rest) 1"
  let ?count = "of_nat (length ?rest) :: 32 word"
  let ?s2 = "s1\<lparr>reputationProfiles := (reputationProfiles s1)(subj :=
      (reputationProfiles s1 subj)\<lparr>encryptedTotalScore := ?total,
              encryptedCredentialCount := ?count,
              encryptedTrustLevel := ?total div 10 + ?count div 5\<rparr>)\<rparr>"
  have res: "updateReputationProfile subj s1 = Inr ?s2"
    using updateReputationProfile_initialized [OF init1] by (simp only: agg)
  have act2: "activeCredentials ?s2 subj = ?rest"
    using agg(1) [of subj] by (simp add: activeCredentials_def)
  have vc2: "verifiableCredentials ?s2 c = (verifiableCredentials s c)\<lparr>isActive := False\<rparr>"
    by (simp add: eff)
  show ?thesis
  proof (rule exI [of _ ?s2], intro conjI)
    show "updateReputationProfile subj s1 = Inr ?s2" by (rule res)
    show "c \<notin> set (activeCredentials ?s2 subj)" by (simp only: act2) simp
    show "getEncryptedVC c ?s2 =
         Inr (issuer (verifiableCredentials s c), subject (verifiableCredentials s c),
              encryptedType (verifiableCredentials s c),
              encryptedScore (verifiableCredentials s c),
              encryptedWeight (verifiableCredentials s c),
              timestamp (verifiableCredentials s c), False)"
      by (simp only: getEncryptedVC_def Let_def vc2) simp
  qed simp_all
qed

lemma demoRecomputed_active:
  "2 \<in> set (userCredentials demoRecomputed 2)"
  "revokeCredential 1 2 demoRecomputed = Inr (demoRecomputed\<lparr>verifiableCredentials :=
      (verifiableCredentials demoRecomputed)
        (2 := (verifiableCredentials demoRecomputed 2)\<lparr>isActive := False\<rparr>)\<rparr>)"
  "filter (\<lambda>i. i \<noteq> 2) (activeCredentials demoRecomputed 2) = [1]"
  "weightedScoreSum demoRecomputed [1] = 80"
  "weightSum demoRecomputed [1] = 1"
  "getEncryptedVC 2 demoRecomputed = Inr (1, 2, 1, 60, 1, 1001, True)"
  by (simp_all add: demoRecomputed_eq demoIssued_eq revokeCredential_def
      activeCredentials_def weightedScoreSum_def weightSum_def getEncryptedVC_def)

theorem revoke_then_recompute_witness:
  "reachable acceptAll {1, 2} demoRecomputed \<and> 2 \<in> set (userCredentials demoRecomputed 2)
   \<and> (\<exists>s1 s2. revokeCredential 1 2 demoRecomputed = Inr s1
         \<and> updateReputationProfile 2 s1 = Inr s2
         \<and> encryptedTotalScore (reputationProfiles s2 2) = 80
         \<and> encryptedCredentialCount (reputationProfiles s2 2) = 1
         \<and> encryptedTrustLevel (reputationProfiles s2 2) = 8
         \<and> getEncryptedVC 2 demoRecomputed = Inr (1, 2, 1, 60, 1, 1001, True)
         \<and> getEncryptedVC 2 s2 = Inr (1, 2, 1, 60, 1, 1001, False))"
proof -
  from revoke_then_recompute [OF demoRecomputed_reachable demoRecomputed_active(1,2)]
  obtain s2 where
    "updateReputationProfile 2 (demoRecomputed\<lparr>verifiableCredentials :=
        (verifiableCredentials demoRecomputed)
          (2 := (verifiableCredentials demoRecomputed 2)\<lparr>isActive := False\<rparr>)\<rparr>) = Inr s2"
    "encryptedTotalScore (reputationProfiles s2 2) = 80 div max 1 1"
    "encryptedCredentialCount (reputationProfiles s2 2) = of_nat (length [1 :: uint256])"
    "encryptedTrustLevel (reputationProfiles s2 2)
       = encryptedTotalScore (reputationProfiles s2 2) div 10
         + encryptedCredentialCount (reputationProfiles s2 2) div 5"
    "getEncryptedVC 2 s2 =
       Inr (issuer (verifiableCredentials demoRecomputed 2),
            subject (verifiableCredentials demoRecomputed 2),
            encryptedType (verifiableCredentials demoRecomputed 2),
            encryptedScore (verifiableCredentials demoRecomputed 2),
            encryptedWeight (verifiableCredentials demoRecomputed 2),
            timestamp (verifiableCredentials demoRecomputed 2), False)"
    unfolding demoRecomputed_active(3-5) by blast
  moreover have "verifiableCredentials demoRecomputed 2 =
      \<lparr>vcId = 2, issuer = 1, subject = 2, encryptedType = 1, encryptedScore = 60,
       encryptedWeight = 1, timestamp = 1001, isActive = True\<rparr>"
    by (simp add: demoRecomputed_eq demoIssued_eq)
  ultimately show ?thesis
    using demoRecomputed_reachable demoRecomputed_active(1,2,6) by simp
qed

subsection \<open>The reveal protocol\<close>

lemma be_nat_zeros: "be_nat (replicate n 0 @ bs) = be_nat bs"
  by (induction n) (simp_all add: be_nat_def)

lemma demoCleartexts_decode: "abi_decode_uint32_pair demoCleartexts = Some (50, 70)"
proof -
  have l: "length demoCleartexts = 64" by (simp add: demoCleartexts_def)
  have a: "take 32 demoCleartexts = replicate 31 0 @ [50]"
    by (simp add: demoCleartexts_def)
  have b: "take 32 (drop 32 demoCleartexts) = replicate 31 0 @ [70]"
    by (simp add: demoCleartexts_def)
  have v: "be_nat (replicate 31 0 @ [50]) = 50" "be_nat (replicate 31 0 @ [70]) = 70"
    by (simp_all only: be_nat_zeros) (simp_all add: be_nat_def)
  have "abi_decode_uint32 demoCleartexts 0 = Some 50"
    by (simp add: abi_decode_uint32_def a v)
  moreover have "abi_decode_uint32 demoCleartexts 32 = Some 70"
    by (simp add: abi_decode_uint32_def b v)
  ultimately show ?thesis
    by (simp add: abi_decode_uint32_pair_def l)
qed

text \<open>A revealed proof is a valid one.\<close>

lemma exec_revealed_valid:
  assumes "exec chk c s = Inr s'"
    and inv: "isRevealed (decryptedProofs s p) \<longrightarrow> isValid (reputationProofs s p)"
    and "isRevealed (decryptedProofs s' p)"
  shows "isValid (reputationProofs s' p)"
proof -
  consider "issues c" | "recomputes c" | "\<not> issues c" "\<not> recomputes c" by blast
  then show ?thesis
  proof cases
    case 1
    from exec_issues [OF this assms(1)] obtain sender now subj ty score weight
      where i: "issueEncryptedVC sender now subj ty score weight s = Inr s'" by blast
    show ?thesis using issueEncryptedVC_effect(4,5)[OF i] inv assms(3) by simp
  next
    case 2
    from exec_recomputes [OF this assms(1)] obtain subj
      where "updateReputationProfile subj s = Inr s'" by blast
    from updateReputationProfile_frame [OF this] show ?thesis using inv assms(3) by auto
  next
    case 3
    then show ?thesis using assms
      by (cases c; auto simp: proof_defs other_defs Let_def
            split: if_splits prod.splits sum.splits option.splits)
  qed
qed

lemma reachable_revealed_valid:
  "reachable chk I s \<Longrightarrow> isRevealed (decryptedProofs s p) \<Longrightarrow> isValid (reputationProofs s p)"
proof (induction arbitrary: p rule: reachable.induct)
  case (deployed deployer)
  then show ?case by (simp add: constructor_def zeroDecrypted_def)
next
  case (called I s c s')
  show ?case
    by (rule exec_revealed_valid [OF called.hyps(2) _ called.prems]) (simp add: called.IH)
qed

text \<open>
  C5. In a reachable storage, let a request id be mapped to a proof whose decrypted
  companion is already revealed. Every further callback for that request id, whatever its
  cleartexts and attestation, fails with \<open>AlreadyRevealed\<close>, and the transaction leaves the
  storage, so the revealed \<open>minScore\<close> and \<open>proofValue\<close>, as it was. In particular, in any
  storage, a callback that succeeded is followed by this failure for the same request id.
\<close>

theorem duplicate_callback_rejected:
  "(reachable chk I s \<and> requestToProofId s requestId \<noteq> 0
      \<and> isRevealed (decryptedProofs s (requestToProofId s requestId))
     \<longrightarrow> decryptReputationProof chk requestId cleartexts attestation s = Inl AlreadyRevealed
         \<and> transact chk s (DecryptReputationProof requestId cleartexts attestation) = s)
   \<and> (decryptReputationProof chk requestId cleartexts0 attestation0 s0 = Inr s
     \<longrightarrow> isRevealed (decryptedProofs s (requestToProofId s requestId))
         \<and> decryptReputationProof chk requestId cleartexts attestation s = Inl AlreadyRevealed
         \<and> transact chk s (DecryptReputationProof requestId cleartexts attestation) = s)"
proof (intro conjI impI)
  assume a: "reachable chk I s \<and> requestToProofId s requestId \<noteq> 0
      \<and> isRevealed (decryptedProofs s (requestToProofId s requestId))"
  then have "isValid (reputationProofs s (requestToProofId s requestId))"
    using reachable_revealed_valid by blast
  with a show r: "decryptReputationProof chk requestId cleartexts attestation s
      = Inl AlreadyRevealed"
    by (simp add: decryptReputationProof_def Let_def)
  then show "transact chk s (DecryptReputationProof requestId cleartexts attestation) = s"
    by (simp add: transact_def)
next
  assume b: "decryptReputationProof chk requestId cleartexts0 attestation0 s0 = Inr s"
  then show rev: "isRevealed (decryptedProofs s (requestToProofId s requestId))"
    by (auto simp: decryptReputationProof_def Let_def split: if_splits option.splits)
  from b show r: "decryptReputationProof chk requestId cleartexts attestation s
      = Inl AlreadyRevealed"
    by (auto simp: decryptReputationProof_def Let_def split: if_splits option.splits)
  then show "transact chk s (DecryptReputationProof requestId cleartexts attestation) = s"
    by (simp add: transact_def)
qed


lemma issuedIn_none: "list_all (\<lambda>c. \<not> issues c) cs \<Longrightarrow> issuedIn chk cs s = {}"
  by (induction cs arbitrary: s) (auto simp: issuedBy_def split: sum.splits)

lemma demoRequested_eq:
  "demoRequested = demoRecomputed\<lparr>vcCount := 3,
     reputationProofs := (\<lambda>_. zeroProof)
       (3 := \<lparr>encryptedMinScore = 50, encryptedProof = 70, isValid = True\<rparr>),
     decryptedProofs := (\<lambda>_. zeroDecrypted)
       (3 := \<lparr>minScore = 0, proofValue = 0, isRevealed = False\<rparr>),
     requestToProofId := (\<lambda>_. 0)(9 := 3)\<rparr>"
  by (simp add: demoRequested_def run_def transact_def stored_def
      generateReputationProof_result demoRecomputed_facts requestProofDecryption_def
      word_le_nat_alt)
     (simp add: demoRecomputed_eq demoIssued_eq)

lemma demoRevealed_eq:
  "decryptReputationProof acceptAll 9 demoCleartexts [] demoRequested = Inr demoRevealed"
  "demoRevealed = demoRequested\<lparr>decryptedProofs := (\<lambda>_. zeroDecrypted)
       (3 := \<lparr>minScore = 50, proofValue = 70, isRevealed = True\<rparr>)\<rparr>"
  by (simp_all add: demoRevealed_def run_def transact_def decryptReputationProof_def
      demoRequested_eq demoCleartexts_decode acceptAll_def)

lemma demoRevealed_reachable: "reachable acceptAll {1, 2} demoRevealed"
proof -
  have e1: "issuedIn acceptAll
      [GenerateReputationProof 2 50, RequestProofDecryption 3 9] demoRecomputed = {}"
    by (rule issuedIn_none) simp
  have e2: "issuedIn acceptAll [DecryptReputationProof 9 demoCleartexts []] demoRequested = {}"
    by (rule issuedIn_none) simp
  have "reachable acceptAll ({1, 2} \<union> issuedIn acceptAll
      [GenerateReputationProof 2 50, RequestProofDecryption 3 9] demoRecomputed) demoRequested"
    unfolding demoRequested_def by (rule reachable_run [OF demoRecomputed_reachable])
  then have "reachable acceptAll {1, 2} demoRequested"
    by (simp only: e1 Un_empty_right)
  then have "reachable acceptAll ({1, 2} \<union> issuedIn acceptAll
      [DecryptReputationProof 9 demoCleartexts []] demoRequested) demoRevealed"
    unfolding demoRevealed_def by (rule reachable_run)
  then show ?thesis by (simp only: e2 Un_empty_right)
qed

theorem duplicate_callback_rejected_witness:
  "reachable acceptAll {1, 2} demoRevealed \<and> requestToProofId demoRevealed 9 \<noteq> 0
   \<and> isRevealed (decryptedProofs demoRevealed (requestToProofId demoRevealed 9))
   \<and> decryptReputationProof acceptAll 9 demoCleartexts [] demoRequested = Inr demoRevealed
   \<and> decryptReputationProof acceptAll 9 [] [] demoRevealed = Inl AlreadyRevealed
   \<and> transact acceptAll demoRevealed (DecryptReputationProof 9 [] []) = demoRevealed
   \<and> decryptedProofs demoRevealed 3 = \<lparr>minScore = 50, proofValue = 70, isRevealed = True\<rparr>"
proof -
  have a: "requestToProofId demoRevealed 9 \<noteq> 0"
    and b: "isRevealed (decryptedProofs demoRevealed (requestToProofId demoRevealed 9))"
    and c: "decryptedProofs demoRevealed 3 = \<lparr>minScore = 50, proofValue = 70, isRevealed = True\<rparr>"
    by (simp_all add: demoRevealed_eq(2) demoRequested_eq)
  show ?thesis
    using a b c demoRevealed_reachable demoRevealed_eq(1)
      duplicate_callback_rejected [of acceptAll "{1, 2}" demoRevealed 9 "[]" "[]"
        demoCleartexts "[]" demoRequested]
    by blast
qed

subsection \<open>From generation to reveal\<close>

text \<open>Issuing, revoking and recomputing leave proofs, companions and requests alone.\<close>

lemma exec_credentialChange:
  assumes "exec chk c s = Inr s'" and "credentialChange c"
  shows "reputationProofs s' = reputationProofs s \<and> decryptedProofs s' = decryptedProofs s
     \<and> requestToProofId s' = requestToProofId s"
proof -
  consider "issues c" | "recomputes c" | "revokes c"
    using assms(2) by (auto simp: credentialChange_def)
  then show ?thesis
  proof cases
    case 1
    from exec_issues [OF this assms(1)] obtain sender now subj ty score weight
      where i: "issueEncryptedVC sender now subj ty score weight s = Inr s'" by blast
    show ?thesis using issueEncryptedVC_effect(4-6)[OF i] by simp
  next
    case 2
    from exec_recomputes [OF this assms(1)] obtain subj
      where "updateReputationProfile subj s = Inr s'" by blast
    from updateReputationProfile_frame [OF this] show ?thesis by auto
  next
    case 3
    then obtain sender vid where "c = RevokeCredential sender vid" by (cases c) simp_all
    with assms(1) have "revokeCredential sender vid s = Inr s'" by simp
    from revokeCredential_effect [OF this] show ?thesis by simp
  qed
qed

lemma run_credentialChange:
  assumes "list_all credentialChange cs"
  shows "reputationProofs (run chk cs s) = reputationProofs s
     \<and> decryptedProofs (run chk cs s) = decryptedProofs s
     \<and> requestToProofId (run chk cs s) = requestToProofId s"
  using assms
proof (induction cs arbitrary: s)
  case Nil
  then show ?case by (simp add: run_def)
next
  case (Cons c cs)
  then have c: "credentialChange c" and cs: "list_all credentialChange cs" by simp_all
  have r: "run chk (c # cs) s = run chk cs (transact chk s c)"
    by (simp add: run_def)
  have step: "reputationProofs (transact chk s c) = reputationProofs s
     \<and> decryptedProofs (transact chk s c) = decryptedProofs s
     \<and> requestToProofId (transact chk s c) = requestToProofId s"
  proof (cases "exec chk c s")
    case (Inl e)
    then show ?thesis by (simp add: transact_def)
  next
    case (Inr s')
    then show ?thesis using exec_credentialChange [OF Inr c] by (simp add: transact_def)
  qed
  show ?case using Cons.IH [OF cs, of "transact chk s c"] step by (simp add: r)
qed

lemma demoChanges_are_changes:
  "list_all credentialChange demoChanges1" "list_all credentialChange demoChanges2"
  by (simp_all add: demoChanges1_def demoChanges2_def credentialChange_def)

lemma demoChanges1_total:
  assumes "generateReputationProof 2 50 demoRecomputed = Inr (proofId, s1)"
  shows "encryptedTotalScore (reputationProfiles (run acceptAll demoChanges1 s1) 2) = 50"
proof -
  have "s1 = demoRecomputed\<lparr>vcCount := 3,
            reputationProofs := (reputationProofs demoRecomputed)(3 :=
               \<lparr>encryptedMinScore = 50, encryptedProof = 70, isValid = True\<rparr>),
            decryptedProofs := (decryptedProofs demoRecomputed)(3 :=
               \<lparr>minScore = 0, proofValue = 0, isRevealed = False\<rparr>)\<rparr>"
    using assms
    by (simp add: generateReputationProof_result demoRecomputed_facts word_le_nat_alt)
  then show ?thesis
    by (simp add: demoChanges1_def run_def transact_def issueEncryptedVC_def
        demoRecomputed_eq demoIssued_eq
        updateReputationProfile_def updateStep_def calculateTrustLevel_def
        FHE_div_def FHE_max_def FHE_add_def FHE_mul_def FHE_asEuint32_def Let_def
        word_le_nat_alt)
qed

text \<open>
  C2. For an initialized subject and a threshold \<open>t\<close> (and a counter that can still be
  incremented), \<^verbatim>\<open>generateReputationProof\<close> returns a proof id and stores there a valid
  proof whose value is the select of the comparison, total score against \<open>t\<close>, between the
  total score of that moment and zero, with an unrevealed companion. Credentials may then
  be issued or revoked and profiles recomputed, before and after the request to reveal:
  the request succeeds and submits the threshold and that same value, and a callback for
  the request whose attestation verifies and whose cleartexts decode to the two submitted
  values succeeds and leaves the companion revealed, with \<open>minScore = t\<close> and the proof
  value fixed at generation.
\<close>

theorem proof_reveal:
  assumes "isInitialized (reputationProfiles s subj)" and "vcCount s \<noteq> - 1"
    and "list_all credentialChange cs1" and "list_all credentialChange cs2"
  shows "\<exists>proofId s1 s3.
      generateReputationProof subj t s = Inr (proofId, s1)
    \<and> reputationProofs s1 proofId =
        \<lparr>encryptedMinScore = t,
         encryptedProof = FHE_cmux (FHE_gte (encryptedTotalScore (reputationProfiles s subj)) t)
                            (encryptedTotalScore (reputationProfiles s subj)) (FHE_asEuint32 0),
         isValid = True\<rparr>
    \<and> decryptedProofs s1 proofId = \<lparr>minScore = 0, proofValue = 0, isRevealed = False\<rparr>
    \<and> requestProofDecryption proofId reqId (run chk cs1 s1) = Inr s3
    \<and> submittedCiphertexts (reputationProofs (run chk cs1 s1) proofId) =
        [t, if t \<le> encryptedTotalScore (reputationProfiles s subj)
            then encryptedTotalScore (reputationProfiles s subj) else 0]
    \<and> (\<forall>cleartexts attestation.
          chk reqId cleartexts attestation
          \<and> abi_decode_uint32_pair cleartexts =
              Some (t, if t \<le> encryptedTotalScore (reputationProfiles s subj)
                       then encryptedTotalScore (reputationProfiles s subj) else 0)
          \<longrightarrow> (\<exists>s5. decryptReputationProof chk reqId cleartexts attestation (run chk cs2 s3)
                        = Inr s5
                  \<and> decryptedProofs s5 proofId =
                      \<lparr>minScore = t,
                       proofValue = (if t \<le> encryptedTotalScore (reputationProfiles s subj)
                                     then encryptedTotalScore (reputationProfiles s subj) else 0),
                       isRevealed = True\<rparr>))"
proof -
  let ?T = "encryptedTotalScore (reputationProfiles s subj)"
  let ?v = "if t \<le> ?T then ?T else 0"
  let ?pid = "vcCount s + 1"
  let ?s1 = "s\<lparr>vcCount := ?pid,
      reputationProofs := (reputationProofs s)(?pid :=
         \<lparr>encryptedMinScore = t, encryptedProof = ?v, isValid = True\<rparr>),
      decryptedProofs := (decryptedProofs s)(?pid :=
         \<lparr>minScore = 0, proofValue = 0, isRevealed = False\<rparr>)\<rparr>"
  let ?s2 = "run chk cs1 ?s1"
  let ?s3 = "?s2\<lparr>requestToProofId := (requestToProofId ?s2)(reqId := ?pid)\<rparr>"
  let ?s4 = "run chk cs2 ?s3"
  have gen: "generateReputationProof subj t s = Inr (?pid, ?s1)"
    by (rule generateReputationProof_result [OF assms(1,2)])
  have nz: "?pid \<noteq> 0"
    using assms(2) by (simp add: add_eq_0_iff2)
  have k2: "reputationProofs ?s2 = reputationProofs ?s1"
    "decryptedProofs ?s2 = decryptedProofs ?s1"
    using run_credentialChange [OF assms(3), of chk ?s1] by simp_all
  have req: "requestProofDecryption ?pid reqId ?s2 = Inr ?s3"
    by (simp add: requestProofDecryption_def k2)
  have k4: "reputationProofs ?s4 = reputationProofs ?s1"
    "decryptedProofs ?s4 = decryptedProofs ?s1"
    "requestToProofId ?s4 reqId = ?pid"
    using run_credentialChange [OF assms(4), of chk ?s3] k2 by simp_all
  have sub: "submittedCiphertexts (reputationProofs ?s2 ?pid) = [t, ?v]"
    by (simp add: submittedCiphertexts_def k2)
  have cb: "\<exists>s5. decryptReputationProof chk reqId cleartexts attestation ?s4 = Inr s5
            \<and> decryptedProofs s5 ?pid = \<lparr>minScore = t, proofValue = ?v, isRevealed = True\<rparr>"
    if "chk reqId cleartexts attestation \<and> abi_decode_uint32_pair cleartexts = Some (t, ?v)"
    for cleartexts attestation
    using that nz by (simp add: decryptReputationProof_def k4 Let_def)
  have st: "reputationProofs ?s1 ?pid =
        \<lparr>encryptedMinScore = t,
         encryptedProof = FHE_cmux (FHE_gte ?T t) ?T (FHE_asEuint32 0), isValid = True\<rparr>"
    "decryptedProofs ?s1 ?pid = \<lparr>minScore = 0, proofValue = 0, isRevealed = False\<rparr>"
    by (simp_all add: FHE_cmux_def FHE_gte_def FHE_asEuint32_def)
  show ?thesis
    apply (rule exI [of _ ?pid], rule exI [of _ ?s1], rule exI [of _ ?s3])
    using gen st req sub cb by blast
qed

theorem proof_reveal_witness:
  "isInitialized (reputationProfiles demoRecomputed 2) \<and> vcCount demoRecomputed \<noteq> - 1
   \<and> list_all credentialChange demoChanges1 \<and> list_all credentialChange demoChanges2
   \<and> encryptedTotalScore (reputationProfiles demoRecomputed 2) = 70
   \<and> acceptAll 9 demoCleartexts []
   \<and> abi_decode_uint32_pair demoCleartexts = Some (50, 70)
   \<and> (\<exists>proofId s1 s3. generateReputationProof 2 50 demoRecomputed = Inr (proofId, s1)
        \<and> encryptedTotalScore (reputationProfiles (run acceptAll demoChanges1 s1) 2) = 50
        \<and> requestProofDecryption proofId 9 (run acceptAll demoChanges1 s1) = Inr s3
        \<and> (\<exists>s5. decryptReputationProof acceptAll 9 demoCleartexts []
                    (run acceptAll demoChanges2 s3) = Inr s5
              \<and> decryptedProofs s5 proofId =
                  \<lparr>minScore = 50, proofValue = 70, isRevealed = True\<rparr>))"
proof -
  have a: "isInitialized (reputationProfiles demoRecomputed 2)"
    by (rule demoRecomputed_facts)
  have b: "vcCount demoRecomputed \<noteq> - 1"
    by (simp add: demoRecomputed_facts)
  have v: "(if (50 :: 32 word) \<le> 70 then 70 else 0) = (70 :: 32 word)"
    by (simp add: word_le_nat_alt)
  have ok: "acceptAll 9 demoCleartexts []"
    by (simp add: acceptAll_def)
  from proof_reveal [OF a b demoChanges_are_changes, of 50 9 acceptAll]
  obtain proofId s1 s3 where
    g: "generateReputationProof 2 50 demoRecomputed = Inr (proofId, s1)" and
    r: "requestProofDecryption proofId 9 (run acceptAll demoChanges1 s1) = Inr s3" and
    d: "\<forall>cleartexts attestation.
          acceptAll 9 cleartexts attestation
          \<and> abi_decode_uint32_pair cleartexts = Some (50, 70)
          \<longrightarrow> (\<exists>s5. decryptReputationProof acceptAll 9 cleartexts attestation
                        (run acceptAll demoChanges2 s3) = Inr s5
                  \<and> decryptedProofs s5 proofId =
                      \<lparr>minScore = 50, proofValue = 70, isRevealed = True\<rparr>)"
    unfolding demoRecomputed_facts(3) v by blast
  from d ok demoCleartexts_decode
  have "\<exists>s5. decryptReputationProof acceptAll 9 demoCleartexts []
                    (run acceptAll demoChanges2 s3) = Inr s5
              \<and> decryptedProofs s5 proofId =
                  \<lparr>minScore = 50, proofValue = 70, isRevealed = True\<rparr>"
    by blast
  with g r demoChanges1_total [OF g] a b ok demoCleartexts_decode demoChanges_are_changes
    demoRecomputed_facts(3)
  show ?thesis by blast
qed

end
